theory Spec2Isabelle
  imports Complex_Main "HOL-Library.Word"
begin

section \<open>Scalars, vectors and matrices\<close>

text \<open>
  \<^verbatim>\<open>finite_diff_hessian_AD\<close> computes on C++ \<^verbatim>\<open>double\<close>. The operations it uses
  are collected in a record, so that the routine is embedded once for every
  arithmetic: nothing is assumed about the operations (no associativity, no
  inverse laws), hence the results hold for IEEE doubles with their rounding,
  infinities and NaN as well as for the exact reals. \<open>lit n\<close> is the value of
  the floating literal \<^verbatim>\<open>n.0\<close>.
\<close>

record 'a arith =
  add :: "'a \<Rightarrow> 'a \<Rightarrow> 'a"
  sub :: "'a \<Rightarrow> 'a \<Rightarrow> 'a"
  neg :: "'a \<Rightarrow> 'a"
  mul :: "'a \<Rightarrow> 'a \<Rightarrow> 'a"
  quot :: "'a \<Rightarrow> 'a \<Rightarrow> 'a"
  lit :: "nat \<Rightarrow> 'a"

text \<open>Exact arithmetic: the real field.\<close>

definition exact :: "real arith" where
  "exact = \<lparr>add = (+), sub = (-), neg = uminus, mul = (*), quot = (/), lit = of_nat\<rparr>"

text \<open>
  An \<^verbatim>\<open>Eigen::Matrix<double, Dynamic, 1>\<close> is a list. The coefficient-wise
  operations of the loop body: \<^verbatim>\<open>-g\<close>, \<^verbatim>\<open>a += g\<close>, \<^verbatim>\<open>a -= g\<close>, \<^verbatim>\<open>c * g\<close> and \<^verbatim>\<open>a /= c\<close>.
\<close>

definition vneg :: "'a arith \<Rightarrow> 'a list \<Rightarrow> 'a list" where
  "vneg ar g = map (neg ar) g"

definition vadd :: "'a arith \<Rightarrow> 'a list \<Rightarrow> 'a list \<Rightarrow> 'a list" where
  "vadd ar a g = map2 (add ar) a g"

definition vsub :: "'a arith \<Rightarrow> 'a list \<Rightarrow> 'a list \<Rightarrow> 'a list" where
  "vsub ar a g = map2 (sub ar) a g"

definition smul :: "'a arith \<Rightarrow> 'a \<Rightarrow> 'a list \<Rightarrow> 'a list" where
  "smul ar c g = map (mul ar c) g"

definition vdiv :: "'a arith \<Rightarrow> 'a list \<Rightarrow> 'a \<Rightarrow> 'a list" where
  "vdiv ar a c = map (\<lambda>t. quot ar t c) a"

text \<open>
  An \<^verbatim>\<open>Eigen::Matrix<double, Dynamic, Dynamic>\<close> has its two dimensions and a
  block of storage in column-major order: coefficient \<open>(i, j)\<close> lives at
  offset \<open>i + j * rows\<close>. The storage is a function from offsets, so that
  storage that was never written holds some value, as memory does.
\<close>

record 'a matrix =
  rows :: nat
  cols :: nat
  coeffs :: "nat \<Rightarrow> 'a"

text \<open>
  \<^verbatim>\<open>m.resize(r, c)\<close>: when the number of coefficients stays the same only the
  dimensions change; otherwise the storage is reallocated and holds
  whatever the fresh memory \<open>uninit\<close> holds.
\<close>

definition resize :: "nat \<Rightarrow> nat \<Rightarrow> (nat \<Rightarrow> 'a) \<Rightarrow> 'a matrix \<Rightarrow> 'a matrix" where
  "resize r c uninit m =
     (if r * c = rows m * cols m then m\<lparr>rows := r, cols := c\<rparr>
      else \<lparr>rows = r, cols = c, coeffs = uninit\<rparr>)"

text \<open>\<^verbatim>\<open>m.col(j)\<close> read as a vector, and the assignment \<^verbatim>\<open>m.col(j) = v\<close>.\<close>

definition col :: "'a matrix \<Rightarrow> nat \<Rightarrow> 'a list" where
  "col m j = map (\<lambda>i. coeffs m (i + j * rows m)) [0..<rows m]"

definition set_col :: "nat \<Rightarrow> 'a list \<Rightarrow> 'a matrix \<Rightarrow> 'a matrix" where
  "set_col j v m =
     m\<lparr>coeffs := (\<lambda>k. if j * rows m \<le> k \<and> k < j * rows m + rows m
                      then v ! (k - j * rows m) else coeffs m k)\<rparr>"

text \<open>All columns, left to right.\<close>

definition columns :: "'a matrix \<Rightarrow> 'a list list" where
  "columns m = map (col m) [0..<cols m]"

section \<open>The oracles\<close>

text \<open>
  The function \<^verbatim>\<open>f\<close> and the functor \<^verbatim>\<open>gradient(f, x, fx, grad_fx)\<close> of
  \<^verbatim>\<open>stan/math/mix/mat/functor/gradient.hpp\<close> are parameters of the embedding.
  They are C++ callables: an invocation is given a point, may read and
  change state outside the routine (the autodiff stack, a counter, a log),
  and returns a value or raises an exception. The outside state is the
  world \<open>'w\<close>; an oracle takes the point and the world and gives its answer
  and the new world, and an exception \<open>e\<close> is the answer \<open>Inl e\<close>. The
  gradient oracle answers with the pair of the value and the gradient.
\<close>

type_synonym ('e, 'a, 'w) fun_oracle = "'a list \<Rightarrow> 'w \<Rightarrow> ('e + 'a) \<times> 'w"
type_synonym ('e, 'a, 'w) grad_oracle = "'a list \<Rightarrow> 'w \<Rightarrow> ('e + 'a \<times> 'a list) \<times> 'w"

text \<open>
  An oracle whose answer depends on the point only is a function of the
  point. Instrumented to record every point it is queried at, it appends the
  invocation to a log, which is then the world: the log is written by the
  oracle when it is invoked, with the point it is given, also when it
  answers with an exception.
\<close>

type_synonym ('e, 'a) pure_fun = "'a list \<Rightarrow> 'e + 'a"
type_synonym ('e, 'a) pure_grad = "'a list \<Rightarrow> 'e + 'a \<times> 'a list"

datatype 'a probe = Gradient_call "'a list" | Function_call "'a list"

fun is_gradient_call :: "'a probe \<Rightarrow> bool" where
  "is_gradient_call (Gradient_call p) = True"
| "is_gradient_call (Function_call p) = False"

definition recording_f :: "('e, 'a) pure_fun \<Rightarrow> ('e, 'a, 'a probe list) fun_oracle" where
  "recording_f f p seen = (f p, seen @ [Function_call p])"

definition recording_gradient ::
  "('e, 'a) pure_grad \<Rightarrow> ('e, 'a, 'a probe list) grad_oracle" where
  "recording_gradient gradient p seen = (gradient p, seen @ [Gradient_call p])"

text \<open>The gradient functor's contract: the gradient has the length of the point.\<close>

definition sized :: "('e, 'a) pure_grad \<Rightarrow> bool" where
  "sized gradient \<longleftrightarrow> (\<forall>p v g. gradient p = Inr (v, g) \<longrightarrow> length g = length p)"

section \<open>finite_diff_hessian_AD\<close>

text \<open>
  The state of a run: the caller's \<^verbatim>\<open>x\<close> (a const reference), the working
  copy \<^verbatim>\<open>x_temp\<close>, the caller's \<^verbatim>\<open>hess_fx\<close>, and the world of the oracles.
  The routine hands the world to each oracle it invokes and takes the new
  world back; it does nothing else with it.
\<close>

record ('a, 'w) frame =
  x_arg :: "'a list"
  x_temp :: "'a list"
  hess_fx :: "'a matrix"
  world :: 'w

text \<open>
  \<^verbatim>\<open>gradient(f, x_temp, dummy_fx_eval, g_auto)\<close>: the oracle is invoked at the
  working point; \<^verbatim>\<open>g_auto\<close> is handed on, \<^verbatim>\<open>dummy_fx_eval\<close> is never read. An
  exception leaves the routine, with the state as it is then.
\<close>

definition call_gradient ::
  "('e, 'a, 'w) grad_oracle \<Rightarrow> ('a, 'w) frame \<Rightarrow>
     'e \<times> ('a, 'w) frame + 'a list \<times> ('a, 'w) frame" where
  "call_gradient gradient s =
     (case gradient (x_temp s) (world s) of
        (Inl e, w) \<Rightarrow> Inl (e, s\<lparr>world := w\<rparr>)
      | (Inr (dummy_fx_eval, g_auto), w) \<Rightarrow> Inr (g_auto, s\<lparr>world := w\<rparr>))"

text \<open>
  The body of the loop, lines 52 to 72, for dimension \<open>i\<close>. The vector
  \<^verbatim>\<open>VectorXd::Zero(d)\<close> that \<^verbatim>\<open>g_diff\<close> starts with is overwritten by the first
  assignment before it is read.
\<close>

definition column_step ::
  "'a arith \<Rightarrow> ('e, 'a, 'w) grad_oracle \<Rightarrow> 'a \<Rightarrow> nat \<Rightarrow> ('a, 'w) frame \<Rightarrow>
     'e \<times> ('a, 'w) frame + ('a, 'w) frame" where
  "column_step ar gradient epsilon i s0 =
     (let s1 = s0\<lparr>x_temp := (x_temp s0)[i := add ar (x_temp s0 ! i) (mul ar (lit ar 2) epsilon)]\<rparr>
      in case call_gradient gradient s1 of Inl e \<Rightarrow> Inl e | Inr (g_auto1, s2) \<Rightarrow>
      let g_diff1 = vneg ar g_auto1;
          s3 = s2\<lparr>x_temp := (x_temp s2)[i := add ar (x_arg s2 ! i) (mul ar (neg ar (lit ar 2)) epsilon)]\<rparr>
      in case call_gradient gradient s3 of Inl e \<Rightarrow> Inl e | Inr (g_auto2, s4) \<Rightarrow>
      let g_diff2 = vadd ar g_diff1 g_auto2;
          s5 = s4\<lparr>x_temp := (x_temp s4)[i := add ar (x_arg s4 ! i) epsilon]\<rparr>
      in case call_gradient gradient s5 of Inl e \<Rightarrow> Inl e | Inr (g_auto3, s6) \<Rightarrow>
      let g_diff3 = vadd ar g_diff2 (smul ar (lit ar 8) g_auto3);
          s7 = s6\<lparr>x_temp := (x_temp s6)[i := sub ar (x_arg s6 ! i) epsilon]\<rparr>
      in case call_gradient gradient s7 of Inl e \<Rightarrow> Inl e | Inr (g_auto4, s8) \<Rightarrow>
      let g_diff4 = vsub ar g_diff3 (smul ar (lit ar 8) g_auto4);
          s9 = s8\<lparr>x_temp := (x_temp s8)[i := x_arg s8 ! i]\<rparr>;
          g_diff5 = vdiv ar g_diff4 (mul ar (lit ar 12) epsilon)
      in Inr (s9\<lparr>hess_fx := set_col i g_diff5 (hess_fx s9)\<rparr>))"

text \<open>\<^verbatim>\<open>for (int i = ...; i < d; ++i)\<close>, entered with the counter at \<open>i\<close>.\<close>

function for_i ::
  "'a arith \<Rightarrow> ('e, 'a, 'w) grad_oracle \<Rightarrow> 'a \<Rightarrow> nat \<Rightarrow> nat \<Rightarrow> ('a, 'w) frame \<Rightarrow>
     'e \<times> ('a, 'w) frame + ('a, 'w) frame" where
  "for_i ar gradient epsilon d i s =
     (if i < d
      then case column_step ar gradient epsilon i s of
             Inl e \<Rightarrow> Inl e
           | Inr s' \<Rightarrow> for_i ar gradient epsilon d (i + 1) s'
      else Inr s)"
  by pat_completeness auto
termination
  by (relation "measure (\<lambda>(ar, gradient, epsilon, d, i, s). d - i)") auto

declare for_i.simps [simp del]

text \<open>
  Lines 43 to 48: \<^verbatim>\<open>d = x.size()\<close>, the working copy \<^verbatim>\<open>x_temp(x)\<close> and
  \<^verbatim>\<open>hess_fx.resize(d, d)\<close>. \<open>hess0\<close> is the caller's matrix and \<open>w0\<close> the
  world as they are on entry. Vector lengths are taken below \<open>2\<^sup>3\<^sup>1\<close>, where
  the conversion of \<^verbatim>\<open>x.size()\<close> to \<^verbatim>\<open>int\<close> changes nothing.
\<close>

definition entry :: "'a list \<Rightarrow> 'a matrix \<Rightarrow> (nat \<Rightarrow> 'a) \<Rightarrow> 'w \<Rightarrow> ('a, 'w) frame" where
  "entry x hess0 uninit w0 =
     \<lparr>x_arg = x, x_temp = x,
      hess_fx = resize (length x) (length x) uninit hess0, world = w0\<rparr>"

text \<open>
  The routine: the loop over the dimensions, then \<^verbatim>\<open>fx = f(x)\<close>. The result
  is \<^verbatim>\<open>fx\<close> with the state on exit, or the exception of an oracle with the
  state it leaves behind.
\<close>

definition finite_diff_hessian_AD ::
  "'a arith \<Rightarrow> ('e, 'a, 'w) fun_oracle \<Rightarrow> ('e, 'a, 'w) grad_oracle \<Rightarrow> 'a list \<Rightarrow>
     'a matrix \<Rightarrow> (nat \<Rightarrow> 'a) \<Rightarrow> 'a \<Rightarrow> 'w \<Rightarrow>
     'e \<times> ('a, 'w) frame + 'a \<times> ('a, 'w) frame" where
  "finite_diff_hessian_AD ar f gradient x hess0 uninit epsilon w0 =
     (case for_i ar gradient epsilon (length x) 0 (entry x hess0 uninit w0) of
        Inl e \<Rightarrow> Inl e
      | Inr s \<Rightarrow>
          (case f (x_arg s) (world s) of
             (Inl e, w) \<Rightarrow> Inl (e, s\<lparr>world := w\<rparr>)
           | (Inr fx, w) \<Rightarrow> Inr (fx, s\<lparr>world := w\<rparr>)))"

text \<open>The world after a call, whichever way the call ended.\<close>

definition world_after :: "'e \<times> ('a, 'w) frame + 'b \<times> ('a, 'w) frame \<Rightarrow> 'w" where
  "world_after r = (case r of Inl (e, s) \<Rightarrow> world s | Inr (fx, s) \<Rightarrow> world s)"

section \<open>The algorithm as the specification words it\<close>

text \<open>
  The four points of dimension \<open>i\<close>: \<open>x\<close> with \<open>2\<epsilon>\<close>, \<open>-2\<epsilon>\<close>, \<open>\<epsilon>\<close> added to
  coordinate \<open>i\<close> and \<open>\<epsilon>\<close> subtracted from it; and the combination
  \<open>(-g1 + g2 + 8 g3 - 8 g4) / (12 \<epsilon>)\<close> of four gradients.
\<close>

definition stencil_points :: "'a arith \<Rightarrow> 'a \<Rightarrow> 'a list \<Rightarrow> nat \<Rightarrow> 'a list list" where
  "stencil_points ar epsilon x i =
     [x[i := add ar (x ! i) (mul ar (lit ar 2) epsilon)],
      x[i := add ar (x ! i) (mul ar (neg ar (lit ar 2)) epsilon)],
      x[i := add ar (x ! i) epsilon],
      x[i := sub ar (x ! i) epsilon]]"

definition stencil ::
  "'a arith \<Rightarrow> 'a \<Rightarrow> 'a list \<Rightarrow> 'a list \<Rightarrow> 'a list \<Rightarrow> 'a list \<Rightarrow> 'a list" where
  "stencil ar epsilon g1 g2 g3 g4 =
     vdiv ar (vsub ar (vadd ar (vadd ar (vneg ar g1) g2) (smul ar (lit ar 8) g3))
                (smul ar (lit ar 8) g4))
       (mul ar (lit ar 12) epsilon)"

text \<open>
  The invocations of a complete run, in order: for each dimension the four
  gradient invocations, then the one invocation of \<open>f\<close>.
\<close>

definition invocations :: "'a arith \<Rightarrow> 'a \<Rightarrow> 'a list \<Rightarrow> 'a probe list" where
  "invocations ar epsilon x =
     concat (map (\<lambda>i. map Gradient_call (stencil_points ar epsilon x i)) [0..<length x]) @
     [Function_call x]"

section \<open>Quadratic forms in exact arithmetic\<close>

text \<open>
  The quadratic form \<open>x\<^sup>t A x\<close> of a matrix \<open>A\<close>, given by its coefficients,
  and its gradient \<open>(A + A\<^sup>t) x\<close>, which is \<open>2 A x\<close> when \<open>A\<close> is symmetric.
  \<open>quad_f\<close> and \<open>quad_oracle\<close> are the two oracles of this function; they
  never fail.
\<close>

definition quad_form :: "(nat \<Rightarrow> nat \<Rightarrow> real) \<Rightarrow> real list \<Rightarrow> real" where
  "quad_form A p = (\<Sum>r<length p. \<Sum>c<length p. p ! r * A r c * p ! c)"

definition quad_gradient :: "(nat \<Rightarrow> nat \<Rightarrow> real) \<Rightarrow> real list \<Rightarrow> real list" where
  "quad_gradient A p = map (\<lambda>k. \<Sum>c<length p. (A k c + A c k) * p ! c) [0..<length p]"

definition quad_f :: "(nat \<Rightarrow> nat \<Rightarrow> real) \<Rightarrow> ('e, real) pure_fun" where
  "quad_f A p = Inr (quad_form A p)"

definition quad_oracle :: "(nat \<Rightarrow> nat \<Rightarrow> real) \<Rightarrow> ('e, real) pure_grad" where
  "quad_oracle A p = Inr (quad_form A p, quad_gradient A p)"

text \<open>
  The scenario \<open>f(x) = x\<^sub>0\<^sup>2 + x\<^sub>0 x\<^sub>1 + x\<^sub>1\<^sup>2\<close>: the quadratic form of the matrix
  with \<open>1\<close> on the diagonal and \<open>1/2\<close> elsewhere. The caller's matrix is
  \<open>3 \<times> 1\<close> on entry.
\<close>

definition scenario_A :: "nat \<Rightarrow> nat \<Rightarrow> real" where
  "scenario_A r c = (if r = c then 1 else 1 / 2)"

definition scenario_f :: "(unit, real) pure_fun" where
  "scenario_f = quad_f scenario_A"

definition scenario_gradient :: "(unit, real) pure_grad" where
  "scenario_gradient = quad_oracle scenario_A"

definition scenario_hess0 :: "real matrix" where
  "scenario_hess0 = \<lparr>rows = 3, cols = 1, coeffs = (\<lambda>k. 0)\<rparr>"

text \<open>
  Fresh memory that holds zeros, and oracles that raise an exception
  whatever the point is.
\<close>

definition scenario_uninit :: "nat \<Rightarrow> real" where
  "scenario_uninit k = 0"

definition failing_gradient :: "(unit, real) pure_grad" where
  "failing_gradient p = Inl ()"

definition failing_f :: "(unit, real) pure_fun" where
  "failing_f p = Inl ()"

section \<open>The moment initialisation of gaussian_dlm_log\<close>







section \<open>The loop body and the loop\<close>

lemma call_gradient_recording:
  "call_gradient (recording_gradient gradient) s =
     (case gradient (x_temp s) of
        Inl e \<Rightarrow> Inl (e, s\<lparr>world := world s @ [Gradient_call (x_temp s)]\<rparr>)
      | Inr (v, g) \<Rightarrow> Inr (g, s\<lparr>world := world s @ [Gradient_call (x_temp s)]\<rparr>))"
  by (simp add: call_gradient_def recording_gradient_def split: sum.split prod.split)

lemma column_step_eval:
  assumes "x_temp s = x_arg s"
    and "gradient ((x_arg s)[i := add ar (x_arg s ! i) (mul ar (lit ar 2) epsilon)]) = Inr (v1, g1)"
    and "gradient ((x_arg s)[i := add ar (x_arg s ! i) (mul ar (neg ar (lit ar 2)) epsilon)]) = Inr (v2, g2)"
    and "gradient ((x_arg s)[i := add ar (x_arg s ! i) epsilon]) = Inr (v3, g3)"
    and "gradient ((x_arg s)[i := sub ar (x_arg s ! i) epsilon]) = Inr (v4, g4)"
  shows "column_step ar (recording_gradient gradient) epsilon i s =
     Inr (s\<lparr>hess_fx := set_col i (stencil ar epsilon g1 g2 g3 g4) (hess_fx s),
            world := world s @ map Gradient_call (stencil_points ar epsilon (x_arg s) i)\<rparr>)"
proof -
  have restore: "(x_arg s)[i := x_arg s ! i] = x_temp s"
    using assms(1) by simp
  show ?thesis
    unfolding column_step_def Let_def
    by (simp add: assms call_gradient_recording stencil_def stencil_points_def restore)
qed

lemma column_step_raise1:
  assumes "x_temp s = x_arg s"
    and "gradient ((x_arg s)[i := add ar (x_arg s ! i) (mul ar (lit ar 2) epsilon)]) = Inl e"
  shows "column_step ar (recording_gradient gradient) epsilon i s =
     Inl (e, s\<lparr>x_temp := stencil_points ar epsilon (x_arg s) i ! 0,
               world := world s @ take 1 (map Gradient_call (stencil_points ar epsilon (x_arg s) i))\<rparr>)"
  unfolding column_step_def Let_def
  by (simp add: assms call_gradient_recording stencil_points_def)

lemma column_step_raise2:
  assumes "x_temp s = x_arg s"
    and "gradient ((x_arg s)[i := add ar (x_arg s ! i) (mul ar (lit ar 2) epsilon)]) = Inr (v1, g1)"
    and "gradient ((x_arg s)[i := add ar (x_arg s ! i) (mul ar (neg ar (lit ar 2)) epsilon)]) = Inl e"
  shows "column_step ar (recording_gradient gradient) epsilon i s =
     Inl (e, s\<lparr>x_temp := stencil_points ar epsilon (x_arg s) i ! 1,
               world := world s @ take 2 (map Gradient_call (stencil_points ar epsilon (x_arg s) i))\<rparr>)"
  unfolding column_step_def Let_def
  by (simp add: assms call_gradient_recording stencil_points_def)

lemma column_step_raise3:
  assumes "x_temp s = x_arg s"
    and "gradient ((x_arg s)[i := add ar (x_arg s ! i) (mul ar (lit ar 2) epsilon)]) = Inr (v1, g1)"
    and "gradient ((x_arg s)[i := add ar (x_arg s ! i) (mul ar (neg ar (lit ar 2)) epsilon)]) = Inr (v2, g2)"
    and "gradient ((x_arg s)[i := add ar (x_arg s ! i) epsilon]) = Inl e"
  shows "column_step ar (recording_gradient gradient) epsilon i s =
     Inl (e, s\<lparr>x_temp := stencil_points ar epsilon (x_arg s) i ! 2,
               world := world s @ take 3 (map Gradient_call (stencil_points ar epsilon (x_arg s) i))\<rparr>)"
  unfolding column_step_def Let_def
  by (simp add: assms call_gradient_recording stencil_points_def)

lemma column_step_raise4:
  assumes "x_temp s = x_arg s"
    and "gradient ((x_arg s)[i := add ar (x_arg s ! i) (mul ar (lit ar 2) epsilon)]) = Inr (v1, g1)"
    and "gradient ((x_arg s)[i := add ar (x_arg s ! i) (mul ar (neg ar (lit ar 2)) epsilon)]) = Inr (v2, g2)"
    and "gradient ((x_arg s)[i := add ar (x_arg s ! i) epsilon]) = Inr (v3, g3)"
    and "gradient ((x_arg s)[i := sub ar (x_arg s ! i) epsilon]) = Inl e"
  shows "column_step ar (recording_gradient gradient) epsilon i s =
     Inl (e, s\<lparr>x_temp := stencil_points ar epsilon (x_arg s) i ! 3,
               world := world s @ take 4 (map Gradient_call (stencil_points ar epsilon (x_arg s) i))\<rparr>)"
  unfolding column_step_def Let_def
  by (simp add: assms call_gradient_recording stencil_points_def)

lemma column_step_Inr:
  assumes "column_step ar (recording_gradient gradient) epsilon i s = Inr s'"
    and "x_temp s = x_arg s"
  shows "\<exists>v1 g1 v2 g2 v3 g3 v4 g4.
     gradient ((x_arg s)[i := add ar (x_arg s ! i) (mul ar (lit ar 2) epsilon)]) = Inr (v1, g1) \<and>
     gradient ((x_arg s)[i := add ar (x_arg s ! i) (mul ar (neg ar (lit ar 2)) epsilon)]) = Inr (v2, g2) \<and>
     gradient ((x_arg s)[i := add ar (x_arg s ! i) epsilon]) = Inr (v3, g3) \<and>
     gradient ((x_arg s)[i := sub ar (x_arg s ! i) epsilon]) = Inr (v4, g4) \<and>
     s' = s\<lparr>hess_fx := set_col i (stencil ar epsilon g1 g2 g3 g4) (hess_fx s),
            world := world s @ map Gradient_call (stencil_points ar epsilon (x_arg s) i)\<rparr>"
proof (cases "gradient ((x_arg s)[i := add ar (x_arg s ! i) (mul ar (lit ar 2) epsilon)])")
  case (Inl e)
  from column_step_raise1 [where gradient = gradient and ar = ar and epsilon = epsilon, OF assms(2) this] assms(1) show ?thesis by simp
next
  case (Inr r1)
  then obtain v1 g1 where
    1: "gradient ((x_arg s)[i := add ar (x_arg s ! i) (mul ar (lit ar 2) epsilon)]) = Inr (v1, g1)"
    by (cases r1) simp
  show ?thesis
  proof (cases "gradient ((x_arg s)[i := add ar (x_arg s ! i) (mul ar (neg ar (lit ar 2)) epsilon)])")
    case (Inl e)
    from column_step_raise2 [where gradient = gradient and ar = ar and epsilon = epsilon, OF assms(2) 1 this] assms(1) show ?thesis by simp
  next
    case (Inr r2)
    then obtain v2 g2 where
      2: "gradient ((x_arg s)[i := add ar (x_arg s ! i) (mul ar (neg ar (lit ar 2)) epsilon)]) = Inr (v2, g2)"
      by (cases r2) simp
    show ?thesis
    proof (cases "gradient ((x_arg s)[i := add ar (x_arg s ! i) epsilon])")
      case (Inl e)
      from column_step_raise3 [where gradient = gradient and ar = ar and epsilon = epsilon, OF assms(2) 1 2 this] assms(1) show ?thesis by simp
    next
      case (Inr r3)
      then obtain v3 g3 where
        3: "gradient ((x_arg s)[i := add ar (x_arg s ! i) epsilon]) = Inr (v3, g3)"
        by (cases r3) simp
      show ?thesis
      proof (cases "gradient ((x_arg s)[i := sub ar (x_arg s ! i) epsilon])")
        case (Inl e)
        from column_step_raise4 [where gradient = gradient and ar = ar and epsilon = epsilon, OF assms(2) 1 2 3 this] assms(1) show ?thesis by simp
      next
        case (Inr r4)
        then obtain v4 g4 where
          4: "gradient ((x_arg s)[i := sub ar (x_arg s ! i) epsilon]) = Inr (v4, g4)"
          by (cases r4) simp
        from column_step_eval [where gradient = gradient and ar = ar and epsilon = epsilon, OF assms(2) 1 2 3 4] assms(1)
        have "s' = s\<lparr>hess_fx := set_col i (stencil ar epsilon g1 g2 g3 g4) (hess_fx s),
            world := world s @ map Gradient_call (stencil_points ar epsilon (x_arg s) i)\<rparr>"
          by simp
        with 1 2 3 4 show ?thesis by blast
      qed
    qed
  qed
qed

lemma column_step_Inl:
  assumes "column_step ar (recording_gradient gradient) epsilon i s = Inl (e, s')"
    and "x_temp s = x_arg s"
  shows "\<exists>n<4. gradient (stencil_points ar epsilon (x_arg s) i ! n) = Inl e \<and>
     s' = s\<lparr>x_temp := stencil_points ar epsilon (x_arg s) i ! n,
            world := world s @
              take (Suc n) (map Gradient_call (stencil_points ar epsilon (x_arg s) i))\<rparr>"
proof (cases "gradient ((x_arg s)[i := add ar (x_arg s ! i) (mul ar (lit ar 2) epsilon)])")
  case (Inl e1)
  from column_step_raise1 [where gradient = gradient and ar = ar and epsilon = epsilon, OF assms(2) this] assms(1) Inl
  have "gradient (stencil_points ar epsilon (x_arg s) i ! 0) = Inl e \<and>
     s' = s\<lparr>x_temp := stencil_points ar epsilon (x_arg s) i ! 0,
            world := world s @
              take (Suc 0) (map Gradient_call (stencil_points ar epsilon (x_arg s) i))\<rparr>"
    by (simp add: stencil_points_def)
  then show ?thesis by (intro exI [of _ 0]) simp
next
  case (Inr r1)
  then obtain v1 g1 where
    1: "gradient ((x_arg s)[i := add ar (x_arg s ! i) (mul ar (lit ar 2) epsilon)]) = Inr (v1, g1)"
    by (cases r1) simp
  show ?thesis
  proof (cases "gradient ((x_arg s)[i := add ar (x_arg s ! i) (mul ar (neg ar (lit ar 2)) epsilon)])")
    case (Inl e2)
    from column_step_raise2 [where gradient = gradient and ar = ar and epsilon = epsilon, OF assms(2) 1 this] assms(1) Inl
    have "gradient (stencil_points ar epsilon (x_arg s) i ! 1) = Inl e \<and>
       s' = s\<lparr>x_temp := stencil_points ar epsilon (x_arg s) i ! 1,
              world := world s @
                take (Suc 1) (map Gradient_call (stencil_points ar epsilon (x_arg s) i))\<rparr>"
      by (simp add: stencil_points_def)
    then show ?thesis by (intro exI [of _ 1]) simp
  next
    case (Inr r2)
    then obtain v2 g2 where
      2: "gradient ((x_arg s)[i := add ar (x_arg s ! i) (mul ar (neg ar (lit ar 2)) epsilon)]) = Inr (v2, g2)"
      by (cases r2) simp
    show ?thesis
    proof (cases "gradient ((x_arg s)[i := add ar (x_arg s ! i) epsilon])")
      case (Inl e3)
      from column_step_raise3 [where gradient = gradient and ar = ar and epsilon = epsilon, OF assms(2) 1 2 this] assms(1) Inl
      have "gradient (stencil_points ar epsilon (x_arg s) i ! 2) = Inl e \<and>
         s' = s\<lparr>x_temp := stencil_points ar epsilon (x_arg s) i ! 2,
                world := world s @
                  take (Suc 2) (map Gradient_call (stencil_points ar epsilon (x_arg s) i))\<rparr>"
        by (simp add: stencil_points_def)
      then show ?thesis by (intro exI [of _ 2]) simp
    next
      case (Inr r3)
      then obtain v3 g3 where
        3: "gradient ((x_arg s)[i := add ar (x_arg s ! i) epsilon]) = Inr (v3, g3)"
        by (cases r3) simp
      show ?thesis
      proof (cases "gradient ((x_arg s)[i := sub ar (x_arg s ! i) epsilon])")
        case (Inl e4)
        from column_step_raise4 [where gradient = gradient and ar = ar and epsilon = epsilon, OF assms(2) 1 2 3 this] assms(1) Inl
        have "gradient (stencil_points ar epsilon (x_arg s) i ! 3) = Inl e \<and>
           s' = s\<lparr>x_temp := stencil_points ar epsilon (x_arg s) i ! 3,
                  world := world s @
                    take (Suc 3) (map Gradient_call (stencil_points ar epsilon (x_arg s) i))\<rparr>"
          by (simp add: stencil_points_def)
        then show ?thesis by (intro exI [of _ 3]) simp
      next
        case (Inr r4)
        then obtain v4 g4 where
          4: "gradient ((x_arg s)[i := sub ar (x_arg s ! i) epsilon]) = Inr (v4, g4)"
          by (cases r4) simp
        from column_step_eval [where gradient = gradient and ar = ar and epsilon = epsilon, OF assms(2) 1 2 3 4] assms(1) show ?thesis by simp
      qed
    qed
  qed
qed

lemma rows_set_col [simp]: "rows (set_col j v m) = rows m"
  by (simp add: set_col_def)

lemma cols_set_col [simp]: "cols (set_col j v m) = cols m"
  by (simp add: set_col_def)

lemma col_set_col_same:
  assumes "length v = rows m"
  shows "col (set_col j v m) j = v"
proof (rule nth_equalityI)
  show "length (col (set_col j v m) j) = length v"
    using assms by (simp add: col_def)
next
  fix i assume "i < length (col (set_col j v m) j)"
  then have "i < rows m" by (simp add: col_def)
  then show "col (set_col j v m) j ! i = v ! i"
    by (simp add: col_def set_col_def)
qed

lemma offset_other_column:
  fixes i j k r :: nat
  assumes "i < r" and "j \<noteq> k"
  shows "\<not> (j * r \<le> i + k * r \<and> i + k * r < j * r + r)"
proof (cases "k < j")
  case True
  then have "Suc k * r \<le> j * r" by (intro mult_le_mono1) simp
  with assms(1) show ?thesis by simp
next
  case False
  with assms(2) have "Suc j * r \<le> k * r" by (intro mult_le_mono1) simp
  then show ?thesis by simp
qed

lemma col_set_col_other:
  assumes "j \<noteq> k"
  shows "col (set_col j v m) k = col m k"
proof -
  have "\<And>i. i < rows m \<Longrightarrow>
      \<not> (j * rows m \<le> i + k * rows m \<and> i + k * rows m < j * rows m + rows m)"
    by (rule offset_other_column) (use assms in simp_all)
  then show ?thesis
    by (auto simp: col_def set_col_def)
qed

lemma length_stencil:
  assumes "length g1 = n" "length g2 = n" "length g3 = n" "length g4 = n"
  shows "length (stencil ar epsilon g1 g2 g3 g4) = n"
  using assms by (simp add: stencil_def vdiv_def vsub_def vadd_def vneg_def smul_def)

lemma for_i_unfold:
  "for_i ar gradient epsilon d i s =
     (if i < d
      then case column_step ar gradient epsilon i s of
             Inl e \<Rightarrow> Inl e
           | Inr s' \<Rightarrow> for_i ar gradient epsilon d (i + 1) s'
      else Inr s)"
  by (rule for_i.simps)

lemma for_i_stop: "\<not> i < d \<Longrightarrow> for_i ar gradient epsilon d i s = Inr s"
  by (subst for_i_unfold) simp

lemma for_i_step:
  "i < d \<Longrightarrow> column_step ar gradient epsilon i s = Inr t \<Longrightarrow>
   for_i ar gradient epsilon d i s = for_i ar gradient epsilon d (i + 1) t"
  by (subst for_i_unfold) simp

lemma for_i_raise:
  "i < d \<Longrightarrow> column_step ar gradient epsilon i s = Inl es \<Longrightarrow>
   for_i ar gradient epsilon d i s = Inl es"
  by (subst for_i_unfold) simp

lemma for_i_Inr_step:
  assumes "for_i ar gradient epsilon d i s = Inr s'" and "i < d"
  obtains t where "column_step ar gradient epsilon i s = Inr t"
    and "for_i ar gradient epsilon d (i + 1) t = Inr s'"
proof (cases "column_step ar gradient epsilon i s")
  case (Inl es)
  from for_i_raise [OF assms(2) this] assms(1) show ?thesis by simp
next
  case (Inr t)
  from for_i_step [OF assms(2) this] assms(1) that Inr show ?thesis by simp
qed

lemma for_i_frame:
  assumes "for_i ar (recording_gradient gradient) epsilon d i s = Inr s'"
    and "x_temp s = x_arg s"
  shows "x_arg s' = x_arg s \<and> x_temp s' = x_arg s \<and>
         rows (hess_fx s') = rows (hess_fx s) \<and> cols (hess_fx s') = cols (hess_fx s)"
  using assms
proof (induction "d - i" arbitrary: i s)
  case 0
  then have "\<not> i < d" by simp
  with "0.prems" show ?case by (simp add: for_i_stop)
next
  case (Suc k)
  then have less: "i < d" and k: "k = d - (i + 1)" by simp_all
  from Suc.prems(1) less obtain t where
    t: "column_step ar (recording_gradient gradient) epsilon i s = Inr t"
    and rest: "for_i ar (recording_gradient gradient) epsilon d (i + 1) t = Inr s'"
    by (rule for_i_Inr_step)
  from column_step_Inr [OF t Suc.prems(2)]
  have keep: "x_arg t = x_arg s" "x_temp t = x_temp s"
    "rows (hess_fx t) = rows (hess_fx s)" "cols (hess_fx t) = cols (hess_fx s)"
    by auto
  with Suc.prems(2) have "x_temp t = x_arg t" by simp
  from Suc.hyps(1) [OF k rest this] keep Suc.prems(2) show ?case by simp
qed

lemma for_i_world:
  assumes "for_i ar (recording_gradient gradient) epsilon d i s = Inr s'"
    and "x_temp s = x_arg s"
  shows "world s' = world s @
     concat (map (\<lambda>k. map Gradient_call (stencil_points ar epsilon (x_arg s) k)) [i..<d])"
  using assms
proof (induction "d - i" arbitrary: i s)
  case 0
  then have "\<not> i < d" by simp
  with "0.prems" show ?case by (simp add: for_i_stop)
next
  case (Suc k)
  then have less: "i < d" and k: "k = d - (i + 1)" by simp_all
  from Suc.prems(1) less obtain t where
    t: "column_step ar (recording_gradient gradient) epsilon i s = Inr t"
    and rest: "for_i ar (recording_gradient gradient) epsilon d (i + 1) t = Inr s'"
    by (rule for_i_Inr_step)
  from column_step_Inr [OF t Suc.prems(2)]
  have keep: "x_arg t = x_arg s" "x_temp t = x_temp s"
    and w: "world t = world s @ map Gradient_call (stencil_points ar epsilon (x_arg s) i)"
    by auto
  with Suc.prems(2) have "x_temp t = x_arg t" by simp
  from Suc.hyps(1) [OF k rest this] keep w less show ?case
    by (simp add: upt_conv_Cons)
qed

lemma for_i_col_before:
  assumes "for_i ar (recording_gradient gradient) epsilon d i s = Inr s'"
    and "x_temp s = x_arg s" and "j < i"
  shows "col (hess_fx s') j = col (hess_fx s) j"
  using assms
proof (induction "d - i" arbitrary: i s)
  case 0
  then have "\<not> i < d" by simp
  with "0.prems" show ?case by (simp add: for_i_stop)
next
  case (Suc k)
  then have less: "i < d" and k: "k = d - (i + 1)" by simp_all
  from Suc.prems(1) less obtain t where
    t: "column_step ar (recording_gradient gradient) epsilon i s = Inr t"
    and rest: "for_i ar (recording_gradient gradient) epsilon d (i + 1) t = Inr s'"
    by (rule for_i_Inr_step)
  from column_step_Inr [OF t Suc.prems(2)] obtain v where
    keep: "x_arg t = x_arg s" "x_temp t = x_temp s"
    and h: "hess_fx t = set_col i v (hess_fx s)"
    by auto
  with Suc.prems(2) have "x_temp t = x_arg t" by simp
  from Suc.hyps(1) [OF k rest this] Suc.prems(3)
  have "col (hess_fx s') j = col (hess_fx t) j" by simp
  also have "\<dots> = col (hess_fx s) j"
    using Suc.prems(3) by (simp add: h col_set_col_other)
  finally show ?case .
qed

lemma for_i_col:
  assumes "for_i ar (recording_gradient gradient) epsilon d i s = Inr s'"
    and "x_temp s = x_arg s"
    and "sized gradient" and "rows (hess_fx s) = length (x_arg s)"
    and "i \<le> j" and "j < d"
  shows "\<exists>v1 g1 v2 g2 v3 g3 v4 g4.
     gradient ((x_arg s)[j := add ar (x_arg s ! j) (mul ar (lit ar 2) epsilon)]) = Inr (v1, g1) \<and>
     gradient ((x_arg s)[j := add ar (x_arg s ! j) (mul ar (neg ar (lit ar 2)) epsilon)]) = Inr (v2, g2) \<and>
     gradient ((x_arg s)[j := add ar (x_arg s ! j) epsilon]) = Inr (v3, g3) \<and>
     gradient ((x_arg s)[j := sub ar (x_arg s ! j) epsilon]) = Inr (v4, g4) \<and>
     col (hess_fx s') j = stencil ar epsilon g1 g2 g3 g4"
  using assms
proof (induction "d - i" arbitrary: i s)
  case 0
  then show ?case by simp
next
  case (Suc k)
  then have less: "i < d" and k: "k = d - (i + 1)" by simp_all
  from Suc.prems(1) less obtain t where
    t: "column_step ar (recording_gradient gradient) epsilon i s = Inr t"
    and rest: "for_i ar (recording_gradient gradient) epsilon d (i + 1) t = Inr s'"
    by (rule for_i_Inr_step)
  from column_step_Inr [OF t Suc.prems(2)] obtain v1 g1 v2 g2 v3 g3 v4 g4 where
    g: "gradient ((x_arg s)[i := add ar (x_arg s ! i) (mul ar (lit ar 2) epsilon)]) = Inr (v1, g1)"
       "gradient ((x_arg s)[i := add ar (x_arg s ! i) (mul ar (neg ar (lit ar 2)) epsilon)]) = Inr (v2, g2)"
       "gradient ((x_arg s)[i := add ar (x_arg s ! i) epsilon]) = Inr (v3, g3)"
       "gradient ((x_arg s)[i := sub ar (x_arg s ! i) epsilon]) = Inr (v4, g4)"
    and t_eq: "t = s\<lparr>hess_fx := set_col i (stencil ar epsilon g1 g2 g3 g4) (hess_fx s),
            world := world s @ map Gradient_call (stencil_points ar epsilon (x_arg s) i)\<rparr>"
    by blast
  from t_eq have keep: "x_arg t = x_arg s" "x_temp t = x_temp s"
    and h: "hess_fx t = set_col i (stencil ar epsilon g1 g2 g3 g4) (hess_fx s)"
    by simp_all
  from keep Suc.prems(2) have inv: "x_temp t = x_arg t" by simp
  from h keep Suc.prems(4) have r: "rows (hess_fx t) = length (x_arg t)" by simp
  show ?case
  proof (cases "j = i")
    case True
    from g Suc.prems(3) have "length g1 = length (x_arg s)" "length g2 = length (x_arg s)"
      "length g3 = length (x_arg s)" "length g4 = length (x_arg s)"
      by (auto simp: sized_def)
    then have "length (stencil ar epsilon g1 g2 g3 g4) = rows (hess_fx s)"
      using Suc.prems(4) by (simp add: length_stencil)
    then have "col (hess_fx t) i = stencil ar epsilon g1 g2 g3 g4"
      by (simp add: h col_set_col_same)
    moreover have "col (hess_fx s') i = col (hess_fx t) i"
      by (rule for_i_col_before [OF rest inv]) simp
    ultimately show ?thesis using g True by simp
  next
    case False
    with Suc.prems(5) have "i + 1 \<le> j" by simp
    from Suc.hyps(1) [OF k rest inv Suc.prems(3) r this Suc.prems(6)] keep
    show ?thesis by simp
  qed
qed

lemma for_i_split:
  assumes "for_i ar gradient epsilon d i s = Inr s'" and "i \<le> k" and "k \<le> d"
  shows "\<exists>t. for_i ar gradient epsilon k i s = Inr t \<and> for_i ar gradient epsilon d k t = Inr s'"
  using assms
proof (induction "k - i" arbitrary: i s)
  case 0
  then have "k = i" by simp
  with "0.prems"(1) show ?case by (simp add: for_i_stop)
next
  case (Suc m)
  then have less: "i < k" and m: "m = k - (i + 1)" by simp_all
  with Suc.prems(3) have "i < d" by simp
  with Suc.prems(1) obtain t where
    t: "column_step ar gradient epsilon i s = Inr t"
    and rest: "for_i ar gradient epsilon d (i + 1) t = Inr s'"
    by (rule for_i_Inr_step)
  from less have "i + 1 \<le> k" by simp
  from Suc.hyps(1) [OF m rest this Suc.prems(3)] obtain u where
    "for_i ar gradient epsilon k (i + 1) t = Inr u" "for_i ar gradient epsilon d k u = Inr s'"
    by blast
  with for_i_step [OF less t] show ?case by simp
qed

lemma for_i_Inl:
  assumes "for_i ar (recording_gradient gradient) epsilon d i s = Inl (e, s')"
    and "x_temp s = x_arg s"
  shows "x_arg s' = x_arg s \<and> (\<exists>p. gradient p = Inl e) \<and>
     (\<exists>n. n < 4 * (d - i) \<and> world s' = world s @ take (Suc n)
        (concat (map (\<lambda>k. map Gradient_call (stencil_points ar epsilon (x_arg s) k)) [i..<d])))"
  using assms
proof (induction "d - i" arbitrary: i s)
  case 0
  then have "\<not> i < d" by simp
  with "0.prems" show ?case by (simp add: for_i_stop)
next
  case (Suc k)
  then have less: "i < d" and k: "k = d - (i + 1)" by simp_all
  let ?B = "\<lambda>k. map Gradient_call (stencil_points ar epsilon (x_arg s) k)"
  have blocks: "concat (map ?B [i..<d]) = ?B i @ concat (map ?B [i + 1..<d])"
    using less by (simp add: upt_conv_Cons)
  have len: "length (?B i) = 4" by (simp add: stencil_points_def)
  show ?case
  proof (cases "column_step ar (recording_gradient gradient) epsilon i s")
    case (Inl es)
    from for_i_raise [OF less this] Suc.prems(1)
    have "column_step ar (recording_gradient gradient) epsilon i s = Inl (e, s')"
      using Inl by simp
    from column_step_Inl [OF this Suc.prems(2)] obtain n where
      n: "n < 4" and e: "gradient (stencil_points ar epsilon (x_arg s) i ! n) = Inl e"
      and s': "s' = s\<lparr>x_temp := stencil_points ar epsilon (x_arg s) i ! n,
            world := world s @ take (Suc n) (?B i)\<rparr>"
      by blast
    from n len have "take (Suc n) (concat (map ?B [i..<d])) = take (Suc n) (?B i)"
      by (simp add: blocks)
    with s' have "world s' = world s @ take (Suc n) (concat (map ?B [i..<d]))"
      by simp
    moreover from n less have "n < 4 * (d - i)" by simp
    moreover from s' have "x_arg s' = x_arg s" by simp
    ultimately show ?thesis using e by blast
  next
    case (Inr t)
    from for_i_step [OF less this] Suc.prems(1)
    have rest: "for_i ar (recording_gradient gradient) epsilon d (i + 1) t = Inl (e, s')"
      by simp
    from column_step_Inr [OF Inr Suc.prems(2)]
    have keep: "x_arg t = x_arg s" "x_temp t = x_temp s"
      and w: "world t = world s @ ?B i"
      by auto
    with Suc.prems(2) have "x_temp t = x_arg t" by simp
    from Suc.hyps(1) [OF k rest this] keep obtain n where
      x: "x_arg s' = x_arg s" and p: "\<exists>p. gradient p = Inl e"
      and n: "n < 4 * (d - (i + 1))"
      and s': "world s' = world t @ take (Suc n) (concat (map ?B [i + 1..<d]))"
      by auto
    from s' w len have "world s' = world s @ take (Suc (4 + n)) (concat (map ?B [i..<d]))"
      by (simp add: blocks)
    moreover from n less have "4 + n < 4 * (d - i)" by simp
    ultimately show ?thesis using x p by blast
  qed
qed

section \<open>The routine\<close>

lemma entry_simps [simp]:
  "x_arg (entry x hess0 uninit w0) = x"
  "x_temp (entry x hess0 uninit w0) = x"
  "world (entry x hess0 uninit w0) = w0"
  "rows (hess_fx (entry x hess0 uninit w0)) = length x"
  "cols (hess_fx (entry x hess0 uninit w0)) = length x"
  by (simp_all add: entry_def resize_def)

lemma length_stencil_points [simp]: "length (stencil_points ar epsilon x i) = 4"
  by (simp add: stencil_points_def)

lemma length_gradient_calls:
  "length (concat (map (\<lambda>i. map Gradient_call (stencil_points ar epsilon x i)) ks)) = 4 * length ks"
  by (induction ks) simp_all

lemma length_invocations [simp]: "length (invocations ar epsilon x) = 4 * length x + 1"
  by (simp add: invocations_def length_gradient_calls)

lemma run_unfold:
  "finite_diff_hessian_AD ar (recording_f f) (recording_gradient gradient) x hess0 uninit epsilon w0 =
     (case for_i ar (recording_gradient gradient) epsilon (length x) 0 (entry x hess0 uninit w0) of
        Inl es \<Rightarrow> Inl es
      | Inr t \<Rightarrow>
          (case f (x_arg t) of
             Inl e \<Rightarrow> Inl (e, t\<lparr>world := world t @ [Function_call (x_arg t)]\<rparr>)
           | Inr fx \<Rightarrow> Inr (fx, t\<lparr>world := world t @ [Function_call (x_arg t)]\<rparr>)))"
  by (simp add: finite_diff_hessian_AD_def recording_f_def split: sum.split)

lemma run_Inr:
  assumes "finite_diff_hessian_AD ar (recording_f f) (recording_gradient gradient) x hess0 uninit
      epsilon w0 = Inr (fx, s)"
  obtains t where
    "for_i ar (recording_gradient gradient) epsilon (length x) 0 (entry x hess0 uninit w0) = Inr t"
    and "f x = Inr fx" and "s = t\<lparr>world := world t @ [Function_call x]\<rparr>"
proof (cases "for_i ar (recording_gradient gradient) epsilon (length x) 0 (entry x hess0 uninit w0)")
  case (Inl es)
  with assms show ?thesis by (simp add: run_unfold)
next
  case (Inr t)
  from for_i_frame [OF Inr] have x: "x_arg t = x" by simp
  show ?thesis
  proof (cases "f x")
    case (Inl e)
    with assms Inr x show ?thesis by (simp add: run_unfold)
  next
    case r: (Inr v)
    with assms Inr x have "v = fx" "s = t\<lparr>world := world t @ [Function_call x]\<rparr>"
      by (simp_all add: run_unfold)
    with that Inr r show ?thesis by simp
  qed
qed

lemma run_Inl:
  assumes "finite_diff_hessian_AD ar (recording_f f) (recording_gradient gradient) x hess0 uninit
      epsilon w0 = Inl (e, s)"
  shows "x_arg s = x \<and> (f x = Inl e \<or> (\<exists>p. gradient p = Inl e)) \<and>
     (\<exists>n. n < length (invocations ar epsilon x) \<and>
        world s = w0 @ take (Suc n) (invocations ar epsilon x))"
proof (cases "for_i ar (recording_gradient gradient) epsilon (length x) 0 (entry x hess0 uninit w0)")
  case (Inl es)
  with assms have "for_i ar (recording_gradient gradient) epsilon (length x) 0
      (entry x hess0 uninit w0) = Inl (e, s)"
    by (simp add: run_unfold)
  from for_i_Inl [OF this] obtain n where
    x: "x_arg s = x" and p: "\<exists>p. gradient p = Inl e" and n: "n < 4 * length x"
    and w: "world s = w0 @ take (Suc n)
        (concat (map (\<lambda>k. map Gradient_call (stencil_points ar epsilon x k)) [0..<length x]))"
    by auto
  from n w have "world s = w0 @ take (Suc n) (invocations ar epsilon x)"
    by (simp add: invocations_def length_gradient_calls)
  moreover from n have "n < length (invocations ar epsilon x)" by simp
  ultimately show ?thesis using x p by blast
next
  case (Inr t)
  from for_i_frame [OF Inr] have x: "x_arg t = x" by simp
  from for_i_world [OF Inr] have w: "world t = w0 @
      concat (map (\<lambda>k. map Gradient_call (stencil_points ar epsilon x k)) [0..<length x])"
    by simp
  from assms Inr x have f: "f x = Inl e" and s: "s = t\<lparr>world := world t @ [Function_call x]\<rparr>"
    by (simp_all add: run_unfold split: sum.splits)
  from s w have "world s = w0 @ take (Suc (4 * length x)) (invocations ar epsilon x)"
    by (simp add: invocations_def length_gradient_calls)
  moreover have "4 * length x < length (invocations ar epsilon x)" by simp
  ultimately show ?thesis using x s f by auto
qed

lemma run_succeeds:
  assumes "\<forall>p. \<exists>v. f p = Inr v" and "\<forall>p. \<exists>v g. gradient p = Inr (v, g)"
  shows "\<exists>fx s. finite_diff_hessian_AD ar (recording_f f) (recording_gradient gradient) x hess0
      uninit epsilon w0 = Inr (fx, s)"
proof (cases "finite_diff_hessian_AD ar (recording_f f) (recording_gradient gradient) x hess0
      uninit epsilon w0")
  case (Inl es)
  obtain e s where "es = (e, s)" by (cases es)
  with Inl run_Inl [of ar f gradient x hess0 uninit epsilon w0 e s] assms show ?thesis
    by (metis Inl_Inr_False)
next
  case (Inr r)
  then show ?thesis by (cases r) simp
qed

lemma run_column:
  assumes "finite_diff_hessian_AD ar (recording_f f) (recording_gradient gradient) x hess0 uninit
      epsilon w0 = Inr (fx, s)"
    and "sized gradient" and "i < length x"
  shows "\<exists>v1 g1 v2 g2 v3 g3 v4 g4.
     gradient (x[i := add ar (x ! i) (mul ar (lit ar 2) epsilon)]) = Inr (v1, g1) \<and>
     gradient (x[i := add ar (x ! i) (mul ar (neg ar (lit ar 2)) epsilon)]) = Inr (v2, g2) \<and>
     gradient (x[i := add ar (x ! i) epsilon]) = Inr (v3, g3) \<and>
     gradient (x[i := sub ar (x ! i) epsilon]) = Inr (v4, g4) \<and>
     col (hess_fx s) i = stencil ar epsilon g1 g2 g3 g4"
proof -
  from run_Inr [OF assms(1)] obtain t where
    t: "for_i ar (recording_gradient gradient) epsilon (length x) 0 (entry x hess0 uninit w0) = Inr t"
    and s: "s = t\<lparr>world := world t @ [Function_call x]\<rparr>"
    by blast
  from for_i_col [OF t _ assms(2) _ _ assms(3)] s show ?thesis by simp
qed

lemma run_world:
  assumes "finite_diff_hessian_AD ar (recording_f f) (recording_gradient gradient) x hess0 uninit
      epsilon w0 = Inr (fx, s)"
  shows "world s = w0 @ invocations ar epsilon x"
proof -
  from run_Inr [OF assms(1)] obtain t where
    t: "for_i ar (recording_gradient gradient) epsilon (length x) 0 (entry x hess0 uninit w0) = Inr t"
    and s: "s = t\<lparr>world := world t @ [Function_call x]\<rparr>"
    by blast
  from for_i_world [OF t] s show ?thesis by (simp add: invocations_def)
qed

lemma run_empty:
  "finite_diff_hessian_AD ar (recording_f f) gradient [] hess0 uninit epsilon w0 =
     (case f [] of
        Inl e \<Rightarrow> Inl (e, (entry [] hess0 uninit w0)\<lparr>world := w0 @ [Function_call []]\<rparr>)
      | Inr fx \<Rightarrow> Inr (fx, (entry [] hess0 uninit w0)\<lparr>world := w0 @ [Function_call []]\<rparr>))"
  by (cases "f []")
    (simp_all add: finite_diff_hessian_AD_def recording_f_def for_i_unfold [of _ _ _ 0])

section \<open>Exactness on quadratic forms\<close>

lemma length_quad_gradient [simp]: "length (quad_gradient A p) = length p"
  by (simp add: quad_gradient_def)

lemma sum_list_update:
  fixes w :: "nat \<Rightarrow> real"
  assumes "i < length x"
  shows "(\<Sum>c<length x. w c * (x[i := v]) ! c) = (\<Sum>c<length x. w c * x ! c) + w i * (v - x ! i)"
proof -
  have "(\<Sum>c<length x. w c * (x[i := v]) ! c) =
        (\<Sum>c<length x. w c * x ! c + (if c = i then w i * (v - x ! i) else 0))"
    by (rule sum.cong) (auto simp: algebra_simps nth_list_update)
  also have "\<dots> = (\<Sum>c<length x. w c * x ! c) + (\<Sum>c<length x. if c = i then w i * (v - x ! i) else 0)"
    by (rule sum.distrib)
  also have "(\<Sum>c<length x. if c = i then w i * (v - x ! i) else 0) = w i * (v - x ! i)"
    using assms by simp
  finally show ?thesis .
qed

lemma quad_gradient_update:
  assumes "i < length x" and "k < length x"
  shows "quad_gradient A (x[i := v]) ! k = quad_gradient A x ! k + (A k i + A i k) * (v - x ! i)"
  using assms sum_list_update [OF assms(1), of "\<lambda>c. A k c + A c k" v]
  by (simp add: quad_gradient_def)

text \<open>\<open>quad_gradient\<close> is the gradient of \<open>quad_form\<close>: its component \<open>k\<close> is the
  derivative of the form in coordinate \<open>k\<close>.\<close>

lemma quad_form_update:
  assumes "k < length p"
  shows "quad_form A (p[k := t]) =
     quad_form A p + (t - p ! k) * (quad_gradient A p ! k) + (t - p ! k)\<^sup>2 * A k k"
proof -
  let ?n = "length p"
  let ?h = "t - p ! k"
  let ?S = "\<lambda>r. \<Sum>c<?n. A r c * p ! c"
  have inner: "(\<Sum>c<?n. A r c * (p[k := t]) ! c) = ?S r + A r k * ?h" for r
    by (rule sum_list_update [OF assms])
  have "quad_form A (p[k := t]) = (\<Sum>r<?n. (\<Sum>c<?n. A r c * (p[k := t]) ! c) * (p[k := t]) ! r)"
    by (simp add: quad_form_def sum_distrib_left sum_distrib_right mult_ac)
  also have "\<dots> = (\<Sum>r<?n. (?S r + A r k * ?h) * (p[k := t]) ! r)"
    by (simp only: inner)
  also have "\<dots> = (\<Sum>r<?n. (?S r + A r k * ?h) * p ! r) + (?S k + A k k * ?h) * ?h"
    by (rule sum_list_update [OF assms])
  also have "(\<Sum>r<?n. (?S r + A r k * ?h) * p ! r) =
      (\<Sum>r<?n. ?S r * p ! r) + ?h * (\<Sum>r<?n. A r k * p ! r)"
  proof -
    have "(\<Sum>r<?n. (?S r + A r k * ?h) * p ! r) =
        (\<Sum>r<?n. ?S r * p ! r + ?h * (A r k * p ! r))"
      by (rule sum.cong) (simp_all add: algebra_simps)
    also have "\<dots> = (\<Sum>r<?n. ?S r * p ! r) + (\<Sum>r<?n. ?h * (A r k * p ! r))"
      by (rule sum.distrib)
    finally show ?thesis
      by (simp only: sum_distrib_left)
  qed
  also have "(\<Sum>r<?n. ?S r * p ! r) = quad_form A p"
    by (simp add: quad_form_def sum_distrib_left sum_distrib_right mult_ac)
  also have "quad_form A p + ?h * (\<Sum>r<?n. A r k * p ! r) + (?S k + A k k * ?h) * ?h =
      quad_form A p + ?h * (?S k + (\<Sum>r<?n. A r k * p ! r)) + ?h\<^sup>2 * A k k"
    by (simp add: algebra_simps power2_eq_square)
  also have "?S k + (\<Sum>r<?n. A r k * p ! r) = quad_gradient A p ! k"
    using assms by (simp add: quad_gradient_def algebra_simps sum.distrib)
  finally show ?thesis .
qed

lemma quad_gradient_is_gradient:
  assumes "k < length p"
  shows "((\<lambda>t. quad_form A (p[k := t])) has_real_derivative quad_gradient A p ! k) (at (p ! k))"
proof -
  have "((\<lambda>t. quad_form A p + (t - p ! k) * (quad_gradient A p ! k) + (t - p ! k)\<^sup>2 * A k k)
      has_real_derivative quad_gradient A p ! k) (at (p ! k))"
    by (auto intro!: derivative_eq_intros)
  then show ?thesis
    by (simp only: quad_form_update [OF assms, symmetric])
qed

lemma stencil_exact_nth:
  assumes "length g1 = n" "length g2 = n" "length g3 = n" "length g4 = n" "k < n"
  shows "stencil exact epsilon g1 g2 g3 g4 ! k =
     (- (g1 ! k) + g2 ! k + 8 * g3 ! k - 8 * g4 ! k) / (12 * epsilon)"
  using assms
  by (simp add: stencil_def vdiv_def vsub_def vadd_def vneg_def smul_def exact_def)

lemma stencil_quadratic:
  assumes "i < length x" and "\<forall>r<length x. \<forall>c<length x. A r c = A c r" and "epsilon \<noteq> 0"
  shows "stencil exact epsilon
           (quad_gradient A (x[i := add exact (x ! i) (mul exact (lit exact 2) epsilon)]))
           (quad_gradient A (x[i := add exact (x ! i) (mul exact (neg exact (lit exact 2)) epsilon)]))
           (quad_gradient A (x[i := add exact (x ! i) epsilon]))
           (quad_gradient A (x[i := sub exact (x ! i) epsilon])) =
         map (\<lambda>k. 2 * A k i) [0..<length x]"
proof (rule nth_equalityI)
  show "length (stencil exact epsilon
           (quad_gradient A (x[i := add exact (x ! i) (mul exact (lit exact 2) epsilon)]))
           (quad_gradient A (x[i := add exact (x ! i) (mul exact (neg exact (lit exact 2)) epsilon)]))
           (quad_gradient A (x[i := add exact (x ! i) epsilon]))
           (quad_gradient A (x[i := sub exact (x ! i) epsilon]))) =
        length (map (\<lambda>k. 2 * A k i) [0..<length x])"
    by (simp add: length_stencil)
next
  fix k
  assume "k < length (stencil exact epsilon
           (quad_gradient A (x[i := add exact (x ! i) (mul exact (lit exact 2) epsilon)]))
           (quad_gradient A (x[i := add exact (x ! i) (mul exact (neg exact (lit exact 2)) epsilon)]))
           (quad_gradient A (x[i := add exact (x ! i) epsilon]))
           (quad_gradient A (x[i := sub exact (x ! i) epsilon])))"
  then have k: "k < length x" by (simp add: length_stencil)
  with assms(1,2) have sym: "A i k = A k i" by simp
  have ops: "add exact (x ! i) (mul exact (lit exact 2) epsilon) = x ! i + 2 * epsilon"
    "add exact (x ! i) (mul exact (neg exact (lit exact 2)) epsilon) = x ! i + - 2 * epsilon"
    "add exact (x ! i) epsilon = x ! i + epsilon"
    "sub exact (x ! i) epsilon = x ! i - epsilon"
    by (simp_all add: exact_def)
  have "stencil exact epsilon
           (quad_gradient A (x[i := x ! i + 2 * epsilon]))
           (quad_gradient A (x[i := x ! i + - 2 * epsilon]))
           (quad_gradient A (x[i := x ! i + epsilon]))
           (quad_gradient A (x[i := x ! i - epsilon])) ! k =
        (- (quad_gradient A (x[i := x ! i + 2 * epsilon]) ! k)
         + quad_gradient A (x[i := x ! i + - 2 * epsilon]) ! k
         + 8 * quad_gradient A (x[i := x ! i + epsilon]) ! k
         - 8 * quad_gradient A (x[i := x ! i - epsilon]) ! k) / (12 * epsilon)"
    by (rule stencil_exact_nth [where n = "length x"]) (simp_all add: k)
  also have "\<dots> = 2 * A k i"
    using assms(3) by (simp add: quad_gradient_update [OF assms(1) k] sym field_simps)
  finally show "stencil exact epsilon
           (quad_gradient A (x[i := add exact (x ! i) (mul exact (lit exact 2) epsilon)]))
           (quad_gradient A (x[i := add exact (x ! i) (mul exact (neg exact (lit exact 2)) epsilon)]))
           (quad_gradient A (x[i := add exact (x ! i) epsilon]))
           (quad_gradient A (x[i := sub exact (x ! i) epsilon])) ! k =
         map (\<lambda>k. 2 * A k i) [0..<length x] ! k"
    using k by (simp add: ops)
qed

lemma sized_quad_oracle: "sized (quad_oracle A)"
  by (auto simp: sized_def quad_oracle_def)

lemma scenario_answers:
  "\<forall>p. \<exists>v. scenario_f p = Inr v" "\<forall>p. \<exists>v g. scenario_gradient p = Inr (v, g)"
  by (simp_all add: scenario_f_def scenario_gradient_def quad_f_def quad_oracle_def)

lemma scenario_sized: "sized scenario_gradient"
  unfolding scenario_gradient_def by (rule sized_quad_oracle)

lemma scenario_run:
  "\<exists>fx s. finite_diff_hessian_AD exact (recording_f scenario_f)
      (recording_gradient scenario_gradient) [1, 2] scenario_hess0 uninit epsilon [] = Inr (fx, s)"
  using scenario_answers by (rule run_succeeds)

section \<open>The record of the oracle invocations\<close>

lemma drop_concat_blocks:
  assumes "\<And>k. length (F k) = n" and "i \<le> d"
  shows "drop (n * i) (concat (map F [0..<d])) = concat (map F [i..<d])"
  using assms(2)
proof (induction i)
  case 0
  show ?case by simp
next
  case (Suc i)
  then have less: "i < d" and le: "i \<le> d" by simp_all
  have "drop (n * Suc i) (concat (map F [0..<d])) = drop n (drop (n * i) (concat (map F [0..<d])))"
    by (simp add: add.commute)
  also have "\<dots> = drop n (concat (map F [i..<d]))"
    using Suc.IH [OF le] by simp
  also have "\<dots> = drop n (F i @ concat (map F [Suc i..<d]))"
    using less by (simp add: upt_conv_Cons)
  also have "\<dots> = concat (map F [Suc i..<d])"
    using assms(1) [of i] by simp
  finally show ?case .
qed

lemma gradient_calls_only:
  "filter is_gradient_call (concat (map (\<lambda>i. map Gradient_call (F i)) ks)) =
     concat (map (\<lambda>i. map Gradient_call (F i)) ks)"
  "filter (\<lambda>q. \<not> is_gradient_call q) (concat (map (\<lambda>i. map Gradient_call (F i)) ks)) = []"
  by (induction ks) (simp_all add: filter_map comp_def)

lemma invocations_nth:
  assumes "k < 4 * length x"
  shows "invocations ar epsilon x ! k =
     Gradient_call (stencil_points ar epsilon x (k div 4) ! (k mod 4))"
proof -
  let ?B = "\<lambda>i. map Gradient_call (stencil_points ar epsilon x i)"
  let ?G = "concat (map ?B [0..<length x])"
  from assms have q: "k div 4 < length x" by simp
  then have le: "k div 4 \<le> length x" by simp
  have len: "\<And>i. length (?B i) = 4" by simp
  have "invocations ar epsilon x ! k = ?G ! k"
    using assms by (simp add: invocations_def nth_append length_gradient_calls)
  also have "k = 4 * (k div 4) + k mod 4" by simp
  then have "?G ! k = ?G ! (4 * (k div 4) + k mod 4)" by simp
  also have "\<dots> = drop (4 * (k div 4)) ?G ! (k mod 4)"
    using assms by (subst nth_drop) (simp_all add: length_gradient_calls)
  also have "drop (4 * (k div 4)) ?G = ?B (k div 4) @ concat (map ?B [Suc (k div 4)..<length x])"
    using q by (simp add: drop_concat_blocks [of ?B, OF len le] upt_conv_Cons)
  also have "(?B (k div 4) @ concat (map ?B [Suc (k div 4)..<length x])) ! (k mod 4) =
      ?B (k div 4) ! (k mod 4)"
    by (simp add: nth_append)
  also have "\<dots> = Gradient_call (stencil_points ar epsilon x (k div 4) ! (k mod 4))"
    by simp
  finally show ?thesis .
qed

lemma run_world_after:
  "\<exists>m. world_after (finite_diff_hessian_AD ar (recording_f f) (recording_gradient gradient) x
      hess0 uninit epsilon []) = take m (invocations ar epsilon x)"
proof (cases "finite_diff_hessian_AD ar (recording_f f) (recording_gradient gradient) x
      hess0 uninit epsilon []")
  case (Inl es)
  obtain e s where es: "es = (e, s)" by (cases es)
  with Inl run_Inl [of ar f gradient x hess0 uninit epsilon "[]" e s] obtain n where
    "world s = take (Suc n) (invocations ar epsilon x)"
    by auto
  with Inl es show ?thesis by (auto simp: world_after_def)
next
  case (Inr r)
  obtain fx s where r: "r = (fx, s)" by (cases r)
  with Inr run_world [of ar f gradient x hess0 uninit epsilon "[]" fx s]
  have "world s = take (length (invocations ar epsilon x)) (invocations ar epsilon x)"
    by simp
  with Inr r have "world_after (finite_diff_hessian_AD ar (recording_f f)
      (recording_gradient gradient) x hess0 uninit epsilon []) =
      take (length (invocations ar epsilon x)) (invocations ar epsilon x)"
    by (simp add: world_after_def)
  then show ?thesis ..
qed

lemma invocations_counts:
  "length (filter is_gradient_call (invocations ar epsilon x)) = 4 * length x"
  "filter (\<lambda>q. \<not> is_gradient_call q) (invocations ar epsilon x) = [Function_call x]"
  by (simp_all add: invocations_def gradient_calls_only length_gradient_calls)

lemma failing_gradient_run:
  "\<exists>s. finite_diff_hessian_AD exact (recording_f scenario_f) (recording_gradient failing_gradient)
      [1, 2] scenario_hess0 scenario_uninit (1 / 1000) [] = Inl ((), s) \<and>
     world s = [Gradient_call [501 / 500, 2]]"
proof -
  let ?s0 = "entry [1, 2] scenario_hess0 scenario_uninit ([] :: real probe list)"
  have "column_step exact (recording_gradient failing_gradient) (1 / 1000) 0 ?s0 =
      Inl ((), ?s0\<lparr>x_temp := stencil_points exact (1 / 1000) (x_arg ?s0) 0 ! 0,
               world := world ?s0 @
                 take 1 (map Gradient_call (stencil_points exact (1 / 1000) (x_arg ?s0) 0))\<rparr>)"
    by (rule column_step_raise1) (simp_all add: failing_gradient_def)
  then have "for_i exact (recording_gradient failing_gradient) (1 / 1000) (length [1::real, 2]) 0 ?s0 =
      Inl ((), ?s0\<lparr>x_temp := stencil_points exact (1 / 1000) (x_arg ?s0) 0 ! 0,
               world := world ?s0 @
                 take 1 (map Gradient_call (stencil_points exact (1 / 1000) (x_arg ?s0) 0))\<rparr>)"
    by (intro for_i_raise) simp_all
  then show ?thesis
    by (simp add: run_unfold stencil_points_def exact_def)
qed

section \<open>Oracles that agree on the gradients\<close>

lemma call_gradient_cong:
  assumes "\<forall>p. map_sum id snd (gradient p) = map_sum id snd (gradient' p)"
  shows "call_gradient (recording_gradient gradient) s =
         call_gradient (recording_gradient gradient') s"
proof -
  from assms have "map_sum id snd (gradient (x_temp s)) = map_sum id snd (gradient' (x_temp s))"
    by blast
  then show ?thesis
    by (cases "gradient (x_temp s)"; cases "gradient' (x_temp s)")
      (auto simp: call_gradient_recording)
qed

lemma column_step_cong:
  assumes "\<forall>p. map_sum id snd (gradient p) = map_sum id snd (gradient' p)"
  shows "column_step ar (recording_gradient gradient) epsilon i s =
         column_step ar (recording_gradient gradient') epsilon i s"
proof -
  have eq: "call_gradient (recording_gradient gradient) = call_gradient (recording_gradient gradient')"
    by (rule ext) (rule call_gradient_cong [OF assms])
  show ?thesis
    unfolding column_step_def eq ..
qed

lemma for_i_cong:
  assumes "\<forall>p. map_sum id snd (gradient p) = map_sum id snd (gradient' p)"
  shows "for_i ar (recording_gradient gradient) epsilon d i s =
         for_i ar (recording_gradient gradient') epsilon d i s"
proof (induction "d - i" arbitrary: i s)
  case 0
  then show ?case by (simp add: for_i_stop)
next
  case (Suc k)
  then have less: "i < d" and k: "k = d - (i + 1)" by simp_all
  note step = column_step_cong [OF assms, of ar epsilon i s]
  show ?case
  proof (cases "column_step ar (recording_gradient gradient) epsilon i s")
    case (Inl es)
    with step have "column_step ar (recording_gradient gradient') epsilon i s = Inl es" by simp
    from for_i_raise [OF less Inl] for_i_raise [OF less this] show ?thesis by simp
  next
    case (Inr t)
    with step have "column_step ar (recording_gradient gradient') epsilon i s = Inr t" by simp
    from for_i_step [OF less Inr] for_i_step [OF less this] Suc.hyps(1) [OF k, of t]
    show ?thesis by simp
  qed
qed

section \<open>The moment initialisation overruns the matrix\<close>





section \<open>The claims\<close>

text \<open>
  In the claims the oracles are functions of the point, instrumented to
  record their invocations: the world is the record, empty on entry.
\<close>

text \<open>
  C1. When the routine returns, column \<open>i\<close> of the Hessian is
  \<open>(-g1 + g2 + 8 g3 - 8 g4) / (12 \<epsilon>)\<close>, where \<open>g1\<close>, \<open>g2\<close>, \<open>g3\<close>, \<open>g4\<close> are the
  gradients the oracle returns at \<open>x\<close> with coordinate \<open>i\<close> replaced by
  \<open>x\<^sub>i + 2\<epsilon>\<close>, \<open>x\<^sub>i + (-2)\<epsilon>\<close>, \<open>x\<^sub>i + \<epsilon>\<close> and \<open>x\<^sub>i - \<epsilon>\<close>: every offset is taken
  from the original \<open>x\<^sub>i\<close>. The sum is taken from the left, in the
  arithmetic \<open>ar\<close>.
\<close>

theorem hessian_column_is_stencil:
  assumes "finite_diff_hessian_AD ar (recording_f f) (recording_gradient gradient) x hess0
      uninit epsilon [] = Inr (fx, s)"
    and "sized gradient" and "i < length x"
  shows "\<exists>v1 g1 v2 g2 v3 g3 v4 g4.
     gradient (x[i := add ar (x ! i) (mul ar (lit ar 2) epsilon)]) = Inr (v1, g1) \<and>
     gradient (x[i := add ar (x ! i) (mul ar (neg ar (lit ar 2)) epsilon)]) = Inr (v2, g2) \<and>
     gradient (x[i := add ar (x ! i) epsilon]) = Inr (v3, g3) \<and>
     gradient (x[i := sub ar (x ! i) epsilon]) = Inr (v4, g4) \<and>
     col (hess_fx s) i =
       vdiv ar (vsub ar (vadd ar (vadd ar (vneg ar g1) g2) (smul ar (lit ar 8) g3))
                  (smul ar (lit ar 8) g4))
         (mul ar (lit ar 12) epsilon)"
  using run_column [OF assms] unfolding stencil_def .

theorem hessian_column_is_stencil_witness:
  "\<exists>fx s. finite_diff_hessian_AD exact (recording_f scenario_f) (recording_gradient scenario_gradient)
      [1, 2] scenario_hess0 scenario_uninit
      (1 / 1000) [] = Inr (fx, s) \<and>
     sized scenario_gradient \<and> (1::nat) < length [1::real, 2] \<and>
     col (hess_fx s) 1 = [1, 2]"
proof -
  from scenario_run obtain fx s where
    run: "finite_diff_hessian_AD exact (recording_f scenario_f) (recording_gradient scenario_gradient)
      [1, 2] scenario_hess0 scenario_uninit
      (1 / 1000) [] = Inr (fx, s)"
    by blast
  have i: "(1::nat) < length [1::real, 2]" by simp
  from hessian_column_is_stencil [OF run scenario_sized i]
  have "col (hess_fx s) 1 = [1, 2]"
    by (simp add: scenario_gradient_def quad_oracle_def quad_gradient_def scenario_A_def
        exact_def vdiv_def vsub_def vadd_def vneg_def smul_def)
  with run scenario_sized i show ?thesis by blast
qed

text \<open>
  C2. In exact arithmetic, for a symmetric matrix \<open>A\<close>, the quadratic form
  \<open>f(x) = x\<^sup>t A x\<close> with its exact gradient as the oracle, every point \<open>x\<close>
  and every positive \<open>\<epsilon>\<close>, the routine returns \<open>fx = f(x)\<close> and the Hessian
  \<open>2 A\<close> (given by its columns). At \<open>x = [1, 2]\<close> and
  \<open>f(x) = x\<^sub>0\<^sup>2 + x\<^sub>0 x\<^sub>1 + x\<^sub>1\<^sup>2\<close> this is \<open>fx = 7\<close> and \<open>H = [[2, 1], [1, 2]]\<close>.
\<close>

theorem quadratic_form_hessian_exact:
  assumes "\<forall>r<length x. \<forall>c<length x. A r c = A c r" and "0 < epsilon"
  shows "\<exists>s. finite_diff_hessian_AD exact (recording_f (quad_f A :: ('e, real) pure_fun))
              (recording_gradient (quad_oracle A)) x hess0 uninit epsilon [] =
            Inr (quad_form A x, s) \<and>
          columns (hess_fx s) = map (\<lambda>i. map (\<lambda>k. 2 * A k i) [0..<length x]) [0..<length x]"
proof -
  let ?f = "quad_f A :: ('e, real) pure_fun"
  let ?g = "quad_oracle A :: ('e, real) pure_grad"
  have "\<forall>p. \<exists>v. ?f p = Inr v" "\<forall>p. \<exists>v g. ?g p = Inr (v, g)"
    by (simp_all add: quad_f_def quad_oracle_def)
  from run_succeeds [OF this] obtain fx s where
    run: "finite_diff_hessian_AD exact (recording_f ?f) (recording_gradient ?g) x hess0 uninit
      epsilon [] = Inr (fx, s)"
    by blast
  from run_Inr [OF run] obtain t where
    t: "for_i exact (recording_gradient ?g) epsilon (length x) 0 (entry x hess0 uninit []) = Inr t"
    and fx: "?f x = Inr fx" and s: "s = t\<lparr>world := world t @ [Function_call x]\<rparr>"
    by blast
  from fx have direct: "fx = quad_form A x" by (simp add: quad_f_def)
  from for_i_frame [OF t] s have shape: "cols (hess_fx s) = length x" by simp
  have "col (hess_fx s) i = map (\<lambda>k. 2 * A k i) [0..<length x]" if "i < length x" for i
  proof -
    from assms(2) have "epsilon \<noteq> 0" by simp
    note q = stencil_quadratic [OF that assms(1) this]
    from run_column [OF run sized_quad_oracle that] obtain v1 g1 v2 g2 v3 g3 v4 g4 where
      g: "?g (x[i := add exact (x ! i) (mul exact (lit exact 2) epsilon)]) = Inr (v1, g1)"
         "?g (x[i := add exact (x ! i) (mul exact (neg exact (lit exact 2)) epsilon)]) = Inr (v2, g2)"
         "?g (x[i := add exact (x ! i) epsilon]) = Inr (v3, g3)"
         "?g (x[i := sub exact (x ! i) epsilon]) = Inr (v4, g4)"
      and c: "col (hess_fx s) i = stencil exact epsilon g1 g2 g3 g4"
      by blast
    from g have "g1 = quad_gradient A (x[i := add exact (x ! i) (mul exact (lit exact 2) epsilon)])"
      "g2 = quad_gradient A (x[i := add exact (x ! i) (mul exact (neg exact (lit exact 2)) epsilon)])"
      "g3 = quad_gradient A (x[i := add exact (x ! i) epsilon])"
      "g4 = quad_gradient A (x[i := sub exact (x ! i) epsilon])"
      by (simp_all add: quad_oracle_def)
    with c q show ?thesis by simp
  qed
  then have "map (col (hess_fx s)) [0..<length x] =
      map (\<lambda>i. map (\<lambda>k. 2 * A k i) [0..<length x]) [0..<length x]"
    by (intro map_cong refl) simp
  then have "columns (hess_fx s) = map (\<lambda>i. map (\<lambda>k. 2 * A k i) [0..<length x]) [0..<length x]"
    by (simp only: columns_def shape)
  with run direct show ?thesis by blast
qed

theorem quadratic_form_hessian_exact_witness:
  "scenario_A 0 1 = scenario_A 1 0 \<and> (0::real) < 1 / 1000 \<and>
   quad_form scenario_A [1, 2] = 1\<^sup>2 + 1 * 2 + 2\<^sup>2 \<and>
   (\<exists>s. finite_diff_hessian_AD exact (recording_f scenario_f) (recording_gradient scenario_gradient)
      [1, 2] scenario_hess0 scenario_uninit
      (1 / 1000) [] = Inr (7, s) \<and>
        columns (hess_fx s) = [[2, 1], [1, 2]])"
proof -
  have sym: "\<forall>r<length [1::real, 2]. \<forall>c<length [1::real, 2]. scenario_A r c = scenario_A c r"
    by (simp add: scenario_A_def)
  have pos: "(0::real) < 1 / 1000" by simp
  have fx: "quad_form scenario_A [1, 2] = 7"
    by (simp add: quad_form_def scenario_A_def)
  have H: "map (\<lambda>i. map (\<lambda>k. 2 * scenario_A k i) [0..<length [1::real, 2]]) [0..<length [1::real, 2]] =
      [[2, 1], [1, 2]]"
    by (simp add: scenario_A_def)
  from quadratic_form_hessian_exact [OF sym pos, of scenario_hess0 scenario_uninit, where ?'e = unit]
  have "\<exists>s. finite_diff_hessian_AD exact (recording_f scenario_f) (recording_gradient scenario_gradient)
      [1, 2] scenario_hess0 scenario_uninit
      (1 / 1000) [] = Inr (7, s) \<and>
        columns (hess_fx s) = [[2, 1], [1, 2]]"
    unfolding fx H scenario_f_def scenario_gradient_def .
  with pos fx show ?thesis by (simp add: scenario_A_def)
qed

text \<open>
  C3. Whichever way a call ends, an invocation of the gradient oracle that
  it makes during dimension \<open>i\<close> (one of the invocations \<open>4 i\<close> to \<open>4 i + 3\<close> of
  the record) is at \<open>x\<close> with only coordinate \<open>i\<close> replaced, by \<open>x\<^sub>i + 2\<epsilon>\<close>,
  \<open>x\<^sub>i + (-2)\<epsilon>\<close>, \<open>x\<^sub>i + \<epsilon>\<close> and \<open>x\<^sub>i - \<epsilon>\<close> in this order; whenever dimension \<open>i\<close>
  finishes, the working point \<open>x_temp\<close> is \<open>x\<close> itself; and a call that
  returns has made all four invocations of dimension \<open>i\<close> and has passed,
  after dimension \<open>i\<close> and before dimension \<open>i + 1\<close>, through a state \<open>t\<close> with
  \<open>x_temp = x\<close>, from which the loop goes on to the end.
\<close>

theorem perturbations_do_not_compound:
  assumes "i < length x"
  shows "(\<forall>k. k < length (world_after (finite_diff_hessian_AD ar (recording_f f) (recording_gradient gradient) x hess0
      uninit epsilon [])) \<and> k div 4 = i \<longrightarrow>
            world_after (finite_diff_hessian_AD ar (recording_f f) (recording_gradient gradient) x hess0
                uninit epsilon []) ! k =
              [Gradient_call (x[i := add ar (x ! i) (mul ar (lit ar 2) epsilon)]),
               Gradient_call (x[i := add ar (x ! i) (mul ar (neg ar (lit ar 2)) epsilon)]),
               Gradient_call (x[i := add ar (x ! i) epsilon]),
               Gradient_call (x[i := sub ar (x ! i) epsilon])] ! (k mod 4)) \<and>
         (\<forall>t. for_i ar (recording_gradient gradient) epsilon (i + 1) 0 (entry x hess0 uninit []) =
                Inr t \<longrightarrow> x_temp t = x) \<and>
         (\<forall>fx s. finite_diff_hessian_AD ar (recording_f f) (recording_gradient gradient) x hess0
             uninit epsilon [] = Inr (fx, s) \<longrightarrow>
            take 4 (drop (4 * i) (world s)) =
              [Gradient_call (x[i := add ar (x ! i) (mul ar (lit ar 2) epsilon)]),
               Gradient_call (x[i := add ar (x ! i) (mul ar (neg ar (lit ar 2)) epsilon)]),
               Gradient_call (x[i := add ar (x ! i) epsilon]),
               Gradient_call (x[i := sub ar (x ! i) epsilon])] \<and>
            (\<exists>t u. for_i ar (recording_gradient gradient) epsilon (i + 1) 0
                      (entry x hess0 uninit []) = Inr t \<and>
               x_temp t = x \<and>
               for_i ar (recording_gradient gradient) epsilon (length x) (i + 1) t = Inr u \<and>
               s = u\<lparr>world := world u @ [Function_call x]\<rparr>))"
proof (intro conjI allI impI)
  fix k
  assume k: "k < length (world_after (finite_diff_hessian_AD ar (recording_f f) (recording_gradient gradient) x hess0
      uninit epsilon [])) \<and> k div 4 = i"
  from run_world_after [of ar f gradient x hess0 uninit epsilon] obtain m where
    m: "world_after (finite_diff_hessian_AD ar (recording_f f) (recording_gradient gradient) x hess0
        uninit epsilon []) = take m (invocations ar epsilon x)"
    by blast
  from k assms have less: "k < 4 * length x" by auto
  from k m have "world_after (finite_diff_hessian_AD ar (recording_f f) (recording_gradient gradient) x hess0
      uninit epsilon []) ! k = invocations ar epsilon x ! k"
    by simp
  also have "\<dots> = Gradient_call (stencil_points ar epsilon x (k div 4) ! (k mod 4))"
    using less by (rule invocations_nth)
  also have "\<dots> = map Gradient_call (stencil_points ar epsilon x i) ! (k mod 4)"
    using k by simp
  finally show "world_after (finite_diff_hessian_AD ar (recording_f f) (recording_gradient gradient) x hess0
      uninit epsilon []) ! k =
              [Gradient_call (x[i := add ar (x ! i) (mul ar (lit ar 2) epsilon)]),
               Gradient_call (x[i := add ar (x ! i) (mul ar (neg ar (lit ar 2)) epsilon)]),
               Gradient_call (x[i := add ar (x ! i) epsilon]),
               Gradient_call (x[i := sub ar (x ! i) epsilon])] ! (k mod 4)"
    by (simp add: stencil_points_def)
next
  fix t
  assume "for_i ar (recording_gradient gradient) epsilon (i + 1) 0 (entry x hess0 uninit []) = Inr t"
  from for_i_frame [OF this] show "x_temp t = x" by simp
next
  fix fx s
  assume run: "finite_diff_hessian_AD ar (recording_f f) (recording_gradient gradient) x hess0
      uninit epsilon [] = Inr (fx, s)"
  let ?B = "\<lambda>k. map Gradient_call (stencil_points ar epsilon x k)"
  have len: "\<And>k. length (?B k) = 4" by simp
  from assms have le: "i \<le> length x" by simp
  have "drop (4 * i) (world s) = drop (4 * i) (concat (map ?B [0..<length x])) @ [Function_call x]"
    using assms by (simp add: run_world [OF run] invocations_def length_gradient_calls)
  also have "\<dots> = ?B i @ concat (map ?B [Suc i..<length x]) @ [Function_call x]"
    using assms by (simp add: drop_concat_blocks [of ?B, OF len le] upt_conv_Cons)
  finally have "take 4 (drop (4 * i) (world s)) = ?B i"
    by simp
  then show "take 4 (drop (4 * i) (world s)) =
              [Gradient_call (x[i := add ar (x ! i) (mul ar (lit ar 2) epsilon)]),
               Gradient_call (x[i := add ar (x ! i) (mul ar (neg ar (lit ar 2)) epsilon)]),
               Gradient_call (x[i := add ar (x ! i) epsilon]),
               Gradient_call (x[i := sub ar (x ! i) epsilon])]"
    by (simp add: stencil_points_def)
  from run_Inr [OF run] obtain u where
    u: "for_i ar (recording_gradient gradient) epsilon (length x) 0 (entry x hess0 uninit []) = Inr u"
    and s: "s = u\<lparr>world := world u @ [Function_call x]\<rparr>"
    by blast
  from assms have "0 \<le> i + 1" "i + 1 \<le> length x" by simp_all
  from for_i_split [OF u this] obtain t where
    t: "for_i ar (recording_gradient gradient) epsilon (i + 1) 0 (entry x hess0 uninit []) = Inr t"
    and rest: "for_i ar (recording_gradient gradient) epsilon (length x) (i + 1) t = Inr u"
    by blast
  from for_i_frame [OF t] have "x_temp t = x" by simp
  with t rest s show "\<exists>t u. for_i ar (recording_gradient gradient) epsilon (i + 1) 0
                      (entry x hess0 uninit []) = Inr t \<and>
               x_temp t = x \<and>
               for_i ar (recording_gradient gradient) epsilon (length x) (i + 1) t = Inr u \<and>
               s = u\<lparr>world := world u @ [Function_call x]\<rparr>"
    by blast
qed

theorem perturbations_do_not_compound_witness:
  "\<exists>fx s. finite_diff_hessian_AD exact (recording_f scenario_f) (recording_gradient scenario_gradient)
      [1, 2] scenario_hess0 scenario_uninit
      (1 / 1000) [] = Inr (fx, s) \<and>
     take 4 (drop 4 (world s)) =
       [Gradient_call [1, 1001 / 500], Gradient_call [1, 999 / 500],
        Gradient_call [1, 2001 / 1000], Gradient_call [1, 1999 / 1000]] \<and>
     world s ! 5 = Gradient_call [1, 999 / 500] \<and>
     (\<exists>t. for_i exact (recording_gradient scenario_gradient) (1 / 1000) 2 0
        (entry [1, 2] scenario_hess0 scenario_uninit []) = Inr t \<and> x_temp t = [1, 2])"
proof -
  from scenario_run obtain fx s where
    run: "finite_diff_hessian_AD exact (recording_f scenario_f) (recording_gradient scenario_gradient)
      [1, 2] scenario_hess0 scenario_uninit
      (1 / 1000) [] = Inr (fx, s)"
    by blast
  have i: "(1::nat) < length [1::real, 2]" by simp
  note c3 = perturbations_do_not_compound [OF i, of exact scenario_f scenario_gradient
      scenario_hess0 scenario_uninit "1 / 1000"]
  from c3 run have "take 4 (drop (4 * 1) (world s)) =
           [Gradient_call ([1, 2][1 := add exact ([1, 2] ! 1) (mul exact (lit exact 2) (1 / 1000))]),
            Gradient_call ([1, 2][1 := add exact ([1, 2] ! 1) (mul exact (neg exact (lit exact 2)) (1 / 1000))]),
            Gradient_call ([1, 2][1 := add exact ([1, 2] ! 1) (1 / 1000)]),
            Gradient_call ([1, 2][1 := sub exact ([1, 2] ! 1) (1 / 1000)])]"
    by blast
  then have points: "take 4 (drop 4 (world s)) =
       [Gradient_call [1, 1001 / 500], Gradient_call [1, 999 / 500],
        Gradient_call [1, 2001 / 1000], Gradient_call [1, 1999 / 1000]]"
    by (simp add: exact_def)
  from run have after: "world_after (finite_diff_hessian_AD exact (recording_f scenario_f) (recording_gradient scenario_gradient)
      [1, 2] scenario_hess0 scenario_uninit
      (1 / 1000) []) = world s"
    by (simp add: world_after_def)
  from run_world [OF run] have "length (world s) = 9" by simp
  then have "(5::nat) < length (world s) \<and> (5::nat) div 4 = 1" by simp
  with c3 after have "world s ! 5 =
           [Gradient_call ([1, 2][1 := add exact ([1, 2] ! 1) (mul exact (lit exact 2) (1 / 1000))]),
            Gradient_call ([1, 2][1 := add exact ([1, 2] ! 1) (mul exact (neg exact (lit exact 2)) (1 / 1000))]),
            Gradient_call ([1, 2][1 := add exact ([1, 2] ! 1) (1 / 1000)]),
            Gradient_call ([1, 2][1 := sub exact ([1, 2] ! 1) (1 / 1000)])] ! (5 mod 4)"
    by metis
  then have fifth: "world s ! 5 = Gradient_call [1, 999 / 500]"
    by (simp add: exact_def)
  from c3 run obtain t where
    "for_i exact (recording_gradient scenario_gradient) (1 / 1000) (1 + 1) 0
       (entry [1, 2] scenario_hess0 scenario_uninit []) = Inr t"
    "x_temp t = [1, 2]"
    by blast
  then have "\<exists>t. for_i exact (recording_gradient scenario_gradient) (1 / 1000) 2 0
        (entry [1, 2] scenario_hess0 scenario_uninit []) = Inr t \<and> x_temp t = [1, 2]"
    by (simp only: one_add_one) blast
  with run points fifth show ?thesis by blast
qed

text \<open>
  C4. When the routine returns, \<^verbatim>\<open>fx\<close> is the result of calling \<open>f\<close> at the
  unperturbed \<open>x\<close>; the record of invocations holds exactly one call of \<open>f\<close>,
  at \<open>x\<close>; and \<^verbatim>\<open>fx\<close> is the same whatever the gradient oracle, the
  arithmetic, the step size and the caller's matrix are.
\<close>

theorem fx_is_one_direct_call:
  assumes "finite_diff_hessian_AD ar (recording_f f) (recording_gradient gradient) x hess0
      uninit epsilon [] = Inr (fx, s)"
  shows "f x = Inr fx \<and>
         filter (\<lambda>q. \<not> is_gradient_call q) (world s) = [Function_call x] \<and>
         (\<forall>ar' gradient' hess0' uninit' epsilon' fx' s'.
            finite_diff_hessian_AD ar' (recording_f f) (recording_gradient gradient') x hess0'
              uninit' epsilon' [] = Inr (fx', s')
            \<longrightarrow> fx' = fx)"
proof -
  from run_Inr [OF assms] have direct: "f x = Inr fx" by blast
  have "filter (\<lambda>q. \<not> is_gradient_call q) (world s) = [Function_call x]"
    by (simp add: run_world [OF assms] invocations_counts)
  moreover have "fx' = fx"
    if "finite_diff_hessian_AD ar' (recording_f f) (recording_gradient gradient') x hess0'
              uninit' epsilon' [] = Inr (fx', s')"
    for ar' gradient' hess0' uninit' epsilon' fx' s'
  proof -
    from run_Inr [OF that] have "f x = Inr fx'" by blast
    with direct show ?thesis by simp
  qed
  ultimately show ?thesis using direct by blast
qed

theorem fx_is_one_direct_call_witness:
  "\<exists>s s'. finite_diff_hessian_AD exact (recording_f scenario_f) (recording_gradient scenario_gradient)
      [1, 2] scenario_hess0 scenario_uninit
      (1 / 1000) [] = Inr (7, s) \<and>
     scenario_f [1, 2] = Inr 7 \<and>
     filter (\<lambda>q. \<not> is_gradient_call q) (world s) = [Function_call [1, 2]] \<and>
     finite_diff_hessian_AD exact (recording_f scenario_f)
       (recording_gradient (\<lambda>p. Inr (0, map (\<lambda>c. 0) p))) [1, 2] scenario_hess0
       (\<lambda>k. 1) (1 / 2) [] = Inr (7, s')"
proof -
  from scenario_run obtain fx s where
    run: "finite_diff_hessian_AD exact (recording_f scenario_f) (recording_gradient scenario_gradient)
      [1, 2] scenario_hess0 scenario_uninit
      (1 / 1000) [] = Inr (fx, s)"
    by blast
  have "\<forall>p. \<exists>v g. (Inr (0, map (\<lambda>c. 0) p) :: unit + real \<times> real list) = Inr (v, g)"
    by simp
  from run_succeeds [OF scenario_answers(1) this] obtain fx' s' where
    run': "finite_diff_hessian_AD exact (recording_f scenario_f)
       (recording_gradient (\<lambda>p. Inr (0, map (\<lambda>c. 0) p))) [1, 2] scenario_hess0
       (\<lambda>k. 1) (1 / 2) [] = Inr (fx', s')"
    by blast
  note c4 = fx_is_one_direct_call [OF run]
  from c4 have "scenario_f [1, 2] = Inr fx" by (rule conjunct1)
  then have fx: "fx = 7"
    by (simp add: scenario_f_def quad_f_def quad_form_def scenario_A_def)
  from c4 run' have "fx' = fx" by blast
  with c4 run run' fx show ?thesis by blast
qed

text \<open>
  C5. When the routine returns, the Hessian has \<open>d\<close> rows and \<open>d\<close> columns,
  \<open>d\<close> the length of \<open>x\<close>, whatever the dimensions and the contents of the
  caller's matrix were on entry. For the empty point the routine returns as
  soon as \<open>f []\<close> does, whatever the gradient oracle is, with \<open>fx = f []\<close> and
  the empty \<open>0 \<times> 0\<close> matrix.
\<close>

theorem hessian_shape:
  "(finite_diff_hessian_AD ar (recording_f f) (recording_gradient gradient) x hess0
      uninit epsilon [] = Inr (fx, s) \<longrightarrow>
      rows (hess_fx s) = length x \<and> cols (hess_fx s) = length x \<and>
      length (columns (hess_fx s)) = length x \<and>
      (\<forall>c \<in> set (columns (hess_fx s)). length c = length x)) \<and>
   (f [] = Inr v \<longrightarrow>
      (\<exists>s'. finite_diff_hessian_AD ar (recording_f f) (recording_gradient gradient) [] hess0
           uninit epsilon [] = Inr (v, s') \<and>
         rows (hess_fx s') = 0 \<and> cols (hess_fx s') = 0 \<and> columns (hess_fx s') = []))"
proof (intro conjI impI)
  assume run: "finite_diff_hessian_AD ar (recording_f f) (recording_gradient gradient) x hess0
      uninit epsilon [] = Inr (fx, s)"
  from run_Inr [OF run] obtain t where
    t: "for_i ar (recording_gradient gradient) epsilon (length x) 0 (entry x hess0 uninit []) = Inr t"
    and s: "s = t\<lparr>world := world t @ [Function_call x]\<rparr>"
    by blast
  from for_i_frame [OF t] s show r: "rows (hess_fx s) = length x" and c: "cols (hess_fx s) = length x"
    by simp_all
  from c show "length (columns (hess_fx s)) = length x"
    by (simp add: columns_def)
  from r show "\<forall>c \<in> set (columns (hess_fx s)). length c = length x"
    by (simp add: columns_def col_def)
next
  assume "f [] = Inr v"
  then show "\<exists>s'. finite_diff_hessian_AD ar (recording_f f) (recording_gradient gradient) [] hess0
           uninit epsilon [] = Inr (v, s') \<and>
         rows (hess_fx s') = 0 \<and> cols (hess_fx s') = 0 \<and> columns (hess_fx s') = []"
    by (simp add: run_empty columns_def)
qed

theorem hessian_shape_witness:
  "(\<exists>fx s. finite_diff_hessian_AD exact (recording_f scenario_f) (recording_gradient scenario_gradient)
      [1, 2] scenario_hess0 scenario_uninit
      (1 / 1000) [] = Inr (fx, s) \<and>
      rows scenario_hess0 = 3 \<and> cols scenario_hess0 = 1 \<and>
      rows (hess_fx s) = 2 \<and> cols (hess_fx s) = 2 \<and> length (columns (hess_fx s)) = 2) \<and>
   scenario_f [] = Inr 0 \<and>
   (\<exists>s'. finite_diff_hessian_AD exact (recording_f scenario_f) (recording_gradient failing_gradient)
      [] scenario_hess0 scenario_uninit (1 / 1000) [] = Inr (0, s') \<and>
      rows (hess_fx s') = 0 \<and> cols (hess_fx s') = 0 \<and> columns (hess_fx s') = [])"
proof -
  from scenario_run obtain fx s where
    run: "finite_diff_hessian_AD exact (recording_f scenario_f) (recording_gradient scenario_gradient)
      [1, 2] scenario_hess0 scenario_uninit
      (1 / 1000) [] = Inr (fx, s)"
    by blast
  from hessian_shape [of exact scenario_f scenario_gradient "[1, 2]" scenario_hess0
      scenario_uninit "1 / 1000" fx s] run
  have "rows (hess_fx s) = 2 \<and> cols (hess_fx s) = 2 \<and> length (columns (hess_fx s)) = 2"
    by simp
  with run have first: "\<exists>fx s. finite_diff_hessian_AD exact (recording_f scenario_f) (recording_gradient scenario_gradient)
      [1, 2] scenario_hess0 scenario_uninit
      (1 / 1000) [] = Inr (fx, s) \<and>
      rows scenario_hess0 = 3 \<and> cols scenario_hess0 = 1 \<and>
      rows (hess_fx s) = 2 \<and> cols (hess_fx s) = 2 \<and> length (columns (hess_fx s)) = 2"
    by (auto simp: scenario_hess0_def)
  have empty: "scenario_f [] = Inr 0"
    by (simp add: scenario_f_def quad_f_def quad_form_def)
  from hessian_shape [of exact scenario_f failing_gradient "[]" scenario_hess0
      scenario_uninit "1 / 1000" 0 undefined 0] empty
  have "\<exists>s'. finite_diff_hessian_AD exact (recording_f scenario_f) (recording_gradient failing_gradient)
      [] scenario_hess0 scenario_uninit (1 / 1000) [] = Inr (0, s') \<and>
      rows (hess_fx s') = 0 \<and> cols (hess_fx s') = 0 \<and> columns (hess_fx s') = []"
    by blast
  with first empty show ?thesis by blast
qed

text \<open>
  C6. When the routine returns, the caller's \<open>x\<close> is what it was on entry;
  so it is in every state the loop reaches between two dimensions: the
  perturbations go to the working copy \<open>x_temp\<close>.
\<close>

theorem input_point_is_unchanged:
  assumes "finite_diff_hessian_AD ar (recording_f f) (recording_gradient gradient) x hess0
      uninit epsilon [] = Inr (fx, s)"
  shows "x_arg s = x \<and>
         (\<forall>d t. for_i ar (recording_gradient gradient) epsilon d 0 (entry x hess0 uninit []) = Inr t
            \<longrightarrow> x_arg t = x)"
proof -
  from run_Inr [OF assms] obtain t where
    t: "for_i ar (recording_gradient gradient) epsilon (length x) 0 (entry x hess0 uninit []) = Inr t"
    and s: "s = t\<lparr>world := world t @ [Function_call x]\<rparr>"
    by blast
  from for_i_frame [OF t] s have "x_arg s = x" by simp
  moreover have "x_arg t = x"
    if "for_i ar (recording_gradient gradient) epsilon d 0 (entry x hess0 uninit []) = Inr t" for d t
    using for_i_frame [OF that] by simp
  ultimately show ?thesis by blast
qed

theorem input_point_is_unchanged_witness:
  "\<exists>fx s. finite_diff_hessian_AD exact (recording_f scenario_f) (recording_gradient scenario_gradient)
      [1, 2] scenario_hess0 scenario_uninit
      (1 / 1000) [] = Inr (fx, s) \<and> x_arg s = [1, 2]"
proof -
  from scenario_run obtain fx s where
    run: "finite_diff_hessian_AD exact (recording_f scenario_f) (recording_gradient scenario_gradient)
      [1, 2] scenario_hess0 scenario_uninit
      (1 / 1000) [] = Inr (fx, s)"
    by blast
  from input_point_is_unchanged [OF run] have "x_arg s = [1, 2]" by (rule conjunct1)
  with run show ?thesis by blast
qed

text \<open>
  C7. The step size is not validated: for every \<open>\<epsilon>\<close> of the scalar type, in
  every arithmetic (so also for zero, negative, infinite or NaN \<open>\<epsilon>\<close>), an
  exception that leaves the routine is one raised by \<open>f\<close> or by the gradient
  oracle, and when the oracles do not fail the routine returns a result.
\<close>

theorem epsilon_is_not_validated:
  "(finite_diff_hessian_AD ar (recording_f f) (recording_gradient gradient) x hess0
      uninit epsilon [] = Inl (e, s) \<longrightarrow>
      f x = Inl e \<or> (\<exists>p. gradient p = Inl e)) \<and>
   ((\<forall>p. \<exists>v. f p = Inr v) \<and> (\<forall>p. \<exists>v g. gradient p = Inr (v, g)) \<longrightarrow>
      (\<exists>fx s. finite_diff_hessian_AD ar (recording_f f) (recording_gradient gradient) x hess0
          uninit epsilon [] = Inr (fx, s)))"
  using run_Inl [of ar f gradient x hess0 uninit epsilon "[]" e s]
    run_succeeds [of f gradient ar x hess0 uninit epsilon "[]"]
  by blast

theorem epsilon_is_not_validated_witness:
  "(\<exists>fx s. finite_diff_hessian_AD exact (recording_f scenario_f) (recording_gradient scenario_gradient)
      [1, 2] scenario_hess0 scenario_uninit 0 [] = Inr (fx, s)) \<and>
   (\<exists>fx s. finite_diff_hessian_AD exact (recording_f scenario_f) (recording_gradient scenario_gradient)
      [1, 2] scenario_hess0 scenario_uninit
      (- 1) [] = Inr (fx, s)) \<and>
   (\<exists>s. finite_diff_hessian_AD exact (recording_f failing_f) (recording_gradient scenario_gradient)
      [] scenario_hess0 scenario_uninit 0 [] = Inl ((), s))"
proof -
  note total = scenario_answers(1) scenario_answers(2)
  from epsilon_is_not_validated [of exact scenario_f scenario_gradient "[1, 2]" scenario_hess0
      scenario_uninit 0] total
  have zero: "\<exists>fx s. finite_diff_hessian_AD exact (recording_f scenario_f) (recording_gradient scenario_gradient)
      [1, 2] scenario_hess0 scenario_uninit 0 [] = Inr (fx, s)"
    by blast
  from epsilon_is_not_validated [of exact scenario_f scenario_gradient "[1, 2]" scenario_hess0
      scenario_uninit "- 1"] total
  have negative: "\<exists>fx s. finite_diff_hessian_AD exact (recording_f scenario_f) (recording_gradient scenario_gradient)
      [1, 2] scenario_hess0 scenario_uninit
      (- 1) [] = Inr (fx, s)"
    by blast
  have "\<exists>s. finite_diff_hessian_AD exact (recording_f failing_f) (recording_gradient scenario_gradient)
      [] scenario_hess0 scenario_uninit 0 [] = Inl ((), s)"
    by (simp add: run_empty failing_f_def)
  with zero negative show ?thesis by blast
qed

text \<open>
  C8. A call that returns has invoked the gradient oracle four times for
  each dimension \<open>i = 0, \<dots>, d - 1\<close> in this order and then \<open>f\<close> once, at \<open>x\<close>:
  \<open>4 d\<close> invocations of the gradient oracle and one of \<open>f\<close>. A call that the
  exception of an oracle ends has made an initial part of these
  invocations, at least one and at most all of them. For \<open>d = 0\<close> the
  gradient oracle is not invoked. Without the restriction to calls that
  return the count fails: with a gradient oracle that raises at once and
  \<open>x = [1, 2]\<close> the call makes one invocation of the gradient oracle and
  none of \<open>f\<close>.
\<close>

theorem oracle_call_count:
  "(finite_diff_hessian_AD ar (recording_f f) (recording_gradient gradient) x hess0
      uninit epsilon [] = Inr (fx, s) \<longrightarrow>
      world s = invocations ar epsilon x \<and>
      length (filter is_gradient_call (world s)) = 4 * length x \<and>
      filter (\<lambda>q. \<not> is_gradient_call q) (world s) = [Function_call x] \<and>
      (x = [] \<longrightarrow> world s = [Function_call []])) \<and>
   (finite_diff_hessian_AD ar (recording_f f) (recording_gradient gradient) x hess0
       uninit epsilon [] = Inl (e, s') \<longrightarrow>
      (\<exists>n. n < 4 * length x + 1 \<and> world s' = take (Suc n) (invocations ar epsilon x)) \<and>
      (x = [] \<longrightarrow> world s' = [Function_call []]))"
proof (intro conjI impI)
  assume run: "finite_diff_hessian_AD ar (recording_f f) (recording_gradient gradient) x hess0
      uninit epsilon [] = Inr (fx, s)"
  from run_world [OF run] show w: "world s = invocations ar epsilon x" by simp
  show "length (filter is_gradient_call (world s)) = 4 * length x"
    by (simp add: w invocations_counts)
  show "filter (\<lambda>q. \<not> is_gradient_call q) (world s) = [Function_call x]"
    by (simp add: w invocations_counts)
  assume "x = []"
  then show "world s = [Function_call []]"
    by (simp add: w invocations_def)
next
  assume run: "finite_diff_hessian_AD ar (recording_f f) (recording_gradient gradient) x hess0
      uninit epsilon [] = Inl (e, s')"
  from run_Inl [OF run] obtain n where
    n: "n < length (invocations ar epsilon x)"
    and w: "world s' = take (Suc n) (invocations ar epsilon x)"
    by auto
  from n w show "\<exists>n. n < 4 * length x + 1 \<and> world s' = take (Suc n) (invocations ar epsilon x)"
    by auto
  assume "x = []"
  with n w show "world s' = [Function_call []]"
    by (simp add: invocations_def)
qed

theorem oracle_call_count_counterexample:
  "world_after (finite_diff_hessian_AD exact (recording_f scenario_f) (recording_gradient failing_gradient)
      [1, 2] scenario_hess0 scenario_uninit (1 / 1000) []) = [Gradient_call [501 / 500, 2]] \<and>
   length (filter is_gradient_call (world_after (finite_diff_hessian_AD exact (recording_f scenario_f) (recording_gradient failing_gradient)
      [1, 2] scenario_hess0 scenario_uninit (1 / 1000) []))) \<noteq> 4 * length [1 :: real, 2] \<and>
   Function_call [1, 2] \<notin> set (world_after (finite_diff_hessian_AD exact (recording_f scenario_f) (recording_gradient failing_gradient)
      [1, 2] scenario_hess0 scenario_uninit (1 / 1000) []))"
proof -
  from failing_gradient_run obtain s where
    "finite_diff_hessian_AD exact (recording_f scenario_f) (recording_gradient failing_gradient)
      [1, 2] scenario_hess0 scenario_uninit (1 / 1000) [] = Inl ((), s)" "world s = [Gradient_call [501 / 500, 2]]"
    by blast
  then have "world_after (finite_diff_hessian_AD exact (recording_f scenario_f) (recording_gradient failing_gradient)
      [1, 2] scenario_hess0 scenario_uninit (1 / 1000) []) = [Gradient_call [501 / 500, 2]]"
    by (simp add: world_after_def)
  then show ?thesis by simp
qed

theorem oracle_call_count_witness:
  "(\<exists>fx s. finite_diff_hessian_AD exact (recording_f scenario_f) (recording_gradient scenario_gradient)
      [1, 2] scenario_hess0 scenario_uninit
      (1 / 1000) [] = Inr (fx, s) \<and>
      length (filter is_gradient_call (world s)) = 8 \<and>
      filter (\<lambda>q. \<not> is_gradient_call q) (world s) = [Function_call [1, 2]] \<and>
      length (world s) = 9) \<and>
   (\<exists>s n. finite_diff_hessian_AD exact (recording_f failing_f) (recording_gradient scenario_gradient)
      [1, 2] scenario_hess0 scenario_uninit (1 / 1000) [] = Inl ((), s) \<and> n < 9 \<and>
      world s = take (Suc n) (invocations exact (1 / 1000) [1, 2]))"
proof -
  from scenario_run obtain fx s where
    run: "finite_diff_hessian_AD exact (recording_f scenario_f) (recording_gradient scenario_gradient)
      [1, 2] scenario_hess0 scenario_uninit
      (1 / 1000) [] = Inr (fx, s)"
    by blast
  note c8 = oracle_call_count [of exact scenario_f scenario_gradient "[1, 2]" scenario_hess0
      scenario_uninit "1 / 1000" fx s]
  from c8 run have w: "world s = invocations exact (1 / 1000) [1, 2]"
    and "length (filter is_gradient_call (world s)) = 4 * length [1::real, 2]"
    and "filter (\<lambda>q. \<not> is_gradient_call q) (world s) = [Function_call [1, 2]]"
    by blast+
  then have "length (filter is_gradient_call (world s)) = 8"
    and "filter (\<lambda>q. \<not> is_gradient_call q) (world s) = [Function_call [1, 2]]"
    and "length (world s) = 9"
    by simp_all
  with run have first: "\<exists>fx s. finite_diff_hessian_AD exact (recording_f scenario_f) (recording_gradient scenario_gradient)
      [1, 2] scenario_hess0 scenario_uninit
      (1 / 1000) [] = Inr (fx, s) \<and>
      length (filter is_gradient_call (world s)) = 8 \<and>
      filter (\<lambda>q. \<not> is_gradient_call q) (world s) = [Function_call [1, 2]] \<and>
      length (world s) = 9"
    by blast
  obtain s' where raised: "finite_diff_hessian_AD exact (recording_f failing_f) (recording_gradient scenario_gradient)
      [1, 2] scenario_hess0 scenario_uninit (1 / 1000) [] = Inl ((), s')"
  proof (cases "finite_diff_hessian_AD exact (recording_f failing_f) (recording_gradient scenario_gradient)
      [1, 2] scenario_hess0 scenario_uninit (1 / 1000) []")
    case (Inl es)
    with that show ?thesis by (cases es) simp
  next
    case (Inr r)
    obtain fx' t where "r = (fx', t)" by (cases r)
    with Inr run_Inr [of exact failing_f scenario_gradient "[1, 2]" scenario_hess0
        scenario_uninit "1 / 1000" "[]" fx' t]
    show ?thesis by (simp add: failing_f_def)
  qed
  from oracle_call_count [of exact failing_f scenario_gradient "[1, 2]" scenario_hess0
      scenario_uninit "1 / 1000" undefined undefined "()" s'] raised
  obtain n where "n < 4 * length [1::real, 2] + 1"
    "world s' = take (Suc n) (invocations exact (1 / 1000) [1, 2])"
    by blast
  then have "n < 9" "world s' = take (Suc n) (invocations exact (1 / 1000) [1, 2])"
    by simp_all
  with raised first show ?thesis by blast
qed




text \<open>
  C10. Two gradient oracles that fail at the same points with the same
  exception and return the same gradient vectors, with whatever value
  components, give the same run: the same \<^verbatim>\<open>fx\<close>, the same Hessian, the same
  exception if one is raised.
\<close>

theorem value_component_is_discarded:
  assumes "\<forall>p. map_sum id snd (gradient p) = map_sum id snd (gradient' p)"
  shows "finite_diff_hessian_AD ar (recording_f f) (recording_gradient gradient) x hess0 uninit
           epsilon [] =
         finite_diff_hessian_AD ar (recording_f f) (recording_gradient gradient') x hess0 uninit
           epsilon []"
  unfolding finite_diff_hessian_AD_def for_i_cong [OF assms] ..

theorem value_component_is_discarded_witness:
  "scenario_gradient [1, 2] \<noteq> Inr (0, quad_gradient scenario_A [1, 2]) \<and>
   finite_diff_hessian_AD exact (recording_f scenario_f) (recording_gradient scenario_gradient)
      [1, 2] scenario_hess0 scenario_uninit
      (1 / 1000) [] =
   finite_diff_hessian_AD exact (recording_f scenario_f)
      (recording_gradient (\<lambda>p. Inr (0, quad_gradient scenario_A p))) [1, 2]
      scenario_hess0 scenario_uninit (1 / 1000) []"
proof -
  have same: "\<forall>p. map_sum id snd (scenario_gradient p) =
      map_sum id snd (Inr (0, quad_gradient scenario_A p) :: unit + real \<times> real list)"
    by (simp add: scenario_gradient_def quad_oracle_def)
  have "quad_form scenario_A [1, 2] = 7"
    by (simp add: quad_form_def scenario_A_def)
  then have "scenario_gradient [1, 2] \<noteq> Inr (0, quad_gradient scenario_A [1, 2])"
    by (simp add: scenario_gradient_def quad_oracle_def)
  with value_component_is_discarded [OF same] show ?thesis by blast
qed

end
